theory Spec2Isabelle
  imports Complex_Main
begin

section \<open>Python values, exceptions and coercions\<close>

text \<open>
  The worker (\<^verbatim>\<open>src/worker/worker.py\<close>) receives its parameters as a dictionary
  of JSON-like values and coerces them with Python's \<^verbatim>\<open>int()\<close>, \<^verbatim>\<open>float()\<close> and
  \<^verbatim>\<open>str.lower()\<close>. Exceptions are values of the type \<open>error\<close>.
\<close>

datatype error =
    ValueError
  | TypeError
  | OverflowError
  | AttributeError
  | IndexError
  | ZeroDivisionError
  | TimeoutError
  | CancelledError
  | RuntimeError string
  | EngineError string

text \<open>
  A Python \<^verbatim>\<open>float\<close>. A finite value is carried as the rational it denotes. The range
  of doubles is modelled (\<open>double_overflow\<close> below); the rounding of a value within that
  range to the nearest double is not (no property below depends on it).
\<close>

datatype pyfloat = Finite rat | PosInf | NegInf | NaN

datatype pyval =
    PNone
  | PBool bool
  | PInt int
  | PFloat pyfloat
  | PStr string
  | PList "pyval list"
  | PDict "(string \<times> pyval) list"

type_synonym params = "(string \<times> pyval) list"

text \<open>\<^verbatim>\<open>params.get(key, default)\<close> on a dictionary.\<close>

definition dict_get :: "params \<Rightarrow> string \<Rightarrow> pyval \<Rightarrow> pyval" where
  "dict_get d k dflt = (case map_of d k of Some v \<Rightarrow> v | None \<Rightarrow> dflt)"

subsection \<open>Characters\<close>

definition lower_char :: "char \<Rightarrow> char" where
  "lower_char c =
     (case map_of (zip ''ABCDEFGHIJKLMNOPQRSTUVWXYZ'' ''abcdefghijklmnopqrstuvwxyz'') c of
        Some l \<Rightarrow> l
      | None \<Rightarrow> c)"

text \<open>\<^verbatim>\<open>str.lower()\<close> on ASCII text.\<close>

definition lower :: "string \<Rightarrow> string" where
  "lower s = map lower_char s"

definition digit_val :: "char \<Rightarrow> nat option" where
  "digit_val c = map_of (zip ''0123456789'' [0, 1, 2, 3, 4, 5, 6, 7, 8, 9]) c"

text \<open>
  The characters \<^verbatim>\<open>int()\<close> and \<^verbatim>\<open>float()\<close> skip at both ends of an ASCII string: tab,
  LF, VT, FF, CR and space.
\<close>

definition is_space :: "char \<Rightarrow> bool" where
  "is_space c = (of_char c \<in> {9, 10, 11, 12, 13, 32 :: nat})"

definition strip :: "string \<Rightarrow> string" where
  "strip s = rev (dropWhile is_space (rev (dropWhile is_space s)))"

subsection \<open>Decimal literals\<close>

text \<open>
  A digit group as \<^verbatim>\<open>int()\<close> and \<^verbatim>\<open>float()\<close> read it: one or more decimal digits, with
  single underscores allowed between digits. \<open>digits_from acc n s\<close> reads the longest such
  group at the front of \<open>s\<close>; it returns the value, the number of digits and the rest, or
  \<open>None\<close> when \<open>s\<close> does not start with a digit.
\<close>

fun digits_from :: "nat \<Rightarrow> nat \<Rightarrow> string \<Rightarrow> nat \<times> nat \<times> string" where
  "digits_from acc n [] = (acc, n, [])"
| "digits_from acc n [c] =
     (case digit_val c of
        Some d \<Rightarrow> (10 * acc + d, Suc n, [])
      | None \<Rightarrow> (acc, n, [c]))"
| "digits_from acc n (c # c' # cs) =
     (case digit_val c of
        Some d \<Rightarrow> digits_from (10 * acc + d) (Suc n) (c' # cs)
      | None \<Rightarrow>
          (if c = CHR ''_'' \<and> digit_val c' \<noteq> None then digits_from acc n (c' # cs)
           else (acc, n, c # c' # cs)))"

definition digit_group :: "string \<Rightarrow> (nat \<times> nat \<times> string) option" where
  "digit_group s =
     (case s of
        [] \<Rightarrow> None
      | c # _ \<Rightarrow> (if digit_val c = None then None else Some (digits_from 0 0 s)))"

text \<open>An optional sign: the sign read (\<open>True\<close> for minus) and the rest.\<close>

definition sign_of :: "string \<Rightarrow> bool \<times> string" where
  "sign_of s =
     (case s of
        c # cs \<Rightarrow> (if c = CHR ''-'' then (True, cs) else if c = CHR ''+'' then (False, cs) else (False, s))
      | [] \<Rightarrow> (False, s))"

text \<open>
  \<^verbatim>\<open>int(s)\<close> for a string of ASCII characters, base 10. A literal of more than 4300
  digits (the default of \<^verbatim>\<open>sys.int_max_str_digits\<close>) is refused.
\<close>

definition int_of_str :: "string \<Rightarrow> error + int" where
  "int_of_str s =
     (let (neg, r) = sign_of (strip s) in
      case digit_group r of
        Some (v, n, []) \<Rightarrow>
          (if 4300 < n then Inl ValueError else Inr (if neg then - int v else int v))
      | _ \<Rightarrow> Inl ValueError)"

text \<open>Truncation towards zero, as \<^verbatim>\<open>int()\<close> does on a float.\<close>

definition py_trunc :: "rat \<Rightarrow> int" where
  "py_trunc q = (if q < 0 then - \<lfloor>- q\<rfloor> else \<lfloor>q\<rfloor>)"

text \<open>\<^verbatim>\<open>int(x)\<close>.\<close>

definition py_int :: "pyval \<Rightarrow> error + int" where
  "py_int v =
     (case v of
        PInt i \<Rightarrow> Inr i
      | PBool b \<Rightarrow> Inr (if b then 1 else 0)
      | PFloat (Finite q) \<Rightarrow> Inr (py_trunc q)
      | PFloat NaN \<Rightarrow> Inl ValueError
      | PFloat _ \<Rightarrow> Inl OverflowError
      | PStr s \<Rightarrow> int_of_str s
      | _ \<Rightarrow> Inl TypeError)"

text \<open>
  The values that round to no finite double: the largest double is \<open>2^1024 - 2^971\<close>, and
  a value of magnitude \<open>2^1024 - 2^970\<close> or more rounds beyond it.
\<close>

definition double_overflow :: "rat \<Rightarrow> bool" where
  "double_overflow q = (2 ^ 1024 - 2 ^ 970 \<le> \<bar>q\<bar>)"

text \<open>
  \<^verbatim>\<open>float(s)\<close> for a string: an optional sign, then \<^verbatim>\<open>inf\<close>, \<^verbatim>\<open>infinity\<close> or \<^verbatim>\<open>nan\<close>
  in any case, or a decimal literal with an optional fraction and exponent; a literal
  beyond the range of doubles gives an infinity.
\<close>

definition exponent_of :: "string \<Rightarrow> int option" where
  "exponent_of s =
     (case s of
        [] \<Rightarrow> Some 0
      | c # cs \<Rightarrow>
          (if c = CHR ''e'' \<or> c = CHR ''E'' then
             (let (neg, r) = sign_of cs in
              case digit_group r of
                Some (v, _, []) \<Rightarrow> Some (if neg then - int v else int v)
              | _ \<Rightarrow> None)
           else None))"

definition scale10 :: "rat \<Rightarrow> int \<Rightarrow> rat" where
  "scale10 q e = (if 0 \<le> e then q * 10 ^ nat e else q / 10 ^ nat (- e))"

definition decimal_of :: "string \<Rightarrow> rat option" where
  "decimal_of s =
     (case digit_group s of
        Some (iv, _, r) \<Rightarrow>
          (case r of
             c # cs \<Rightarrow>
               (if c = CHR ''.'' then
                  (case digit_group cs of
                     Some (fv, n, r') \<Rightarrow>
                       map_option (scale10 (of_nat iv + of_nat fv / 10 ^ n)) (exponent_of r')
                   | None \<Rightarrow> map_option (scale10 (of_nat iv)) (exponent_of cs))
                else map_option (scale10 (of_nat iv)) (exponent_of r))
           | [] \<Rightarrow> Some (of_nat iv))
      | None \<Rightarrow>
          (case s of
             c # cs \<Rightarrow>
               (if c = CHR ''.'' then
                  (case digit_group cs of
                     Some (fv, n, r') \<Rightarrow> map_option (scale10 (of_nat fv / 10 ^ n)) (exponent_of r')
                   | None \<Rightarrow> None)
                else None)
           | [] \<Rightarrow> None))"

definition float_of_str :: "string \<Rightarrow> error + pyfloat" where
  "float_of_str s =
     (let (neg, r) = sign_of (strip s) in
      if lower r = ''inf'' \<or> lower r = ''infinity'' then Inr (if neg then NegInf else PosInf)
      else if lower r = ''nan'' then Inr NaN
      else
        (case decimal_of r of
           Some q \<Rightarrow>
             Inr (if double_overflow q then (if neg then NegInf else PosInf)
                  else Finite (if neg then - q else q))
         | None \<Rightarrow> Inl ValueError))"

text \<open>\<^verbatim>\<open>float(x)\<close>: an integer beyond the range of doubles raises \<^verbatim>\<open>OverflowError\<close>.\<close>

definition py_float :: "pyval \<Rightarrow> error + pyfloat" where
  "py_float v =
     (case v of
        PFloat f \<Rightarrow> Inr f
      | PInt i \<Rightarrow>
          (if double_overflow (of_int i) then Inl OverflowError else Inr (Finite (of_int i)))
      | PBool b \<Rightarrow> Inr (Finite (if b then 1 else 0))
      | PStr s \<Rightarrow> float_of_str s
      | _ \<Rightarrow> Inl TypeError)"

text \<open>
  \<^verbatim>\<open>x.lower() in ("yes", "true", "1", "y", "on")\<close>: only a string has \<^verbatim>\<open>lower\<close>.
\<close>

definition truthy :: "pyval \<Rightarrow> error + bool" where
  "truthy v =
     (case v of
        PStr s \<Rightarrow> Inr (lower s \<in> set [''yes'', ''true'', ''1'', ''y'', ''on''])
      | _ \<Rightarrow> Inl AttributeError)"

section \<open>Images and tensors\<close>

text \<open>
  A PIL image in mode RGB: its size and \<open>im_height\<close> rows of \<open>im_width\<close> pixels, each
  pixel three bytes.
\<close>

type_synonym pixel = "nat \<times> nat \<times> nat"

record image =
  im_width :: nat
  im_height :: nat
  im_pixels :: "pixel list list"

text \<open>
  \<^verbatim>\<open>Image.new("RGB", (width, height))\<close>: a black image. Pillow refuses a negative width
  or height with a \<^verbatim>\<open>ValueError\<close>.
\<close>

definition image_new :: "int \<Rightarrow> int \<Rightarrow> error + image" where
  "image_new w h =
     (if w < 0 \<or> h < 0 then Inl ValueError
      else Inr \<lparr>im_width = nat w, im_height = nat h,
                im_pixels = replicate (nat h) (replicate (nat w) (0, 0, 0))\<rparr>)"

text \<open>
  \<^verbatim>\<open>img.putpixel((x, y), color)\<close>: a negative coordinate counts from the far edge, and a
  coordinate outside the image raises \<^verbatim>\<open>IndexError\<close>.
\<close>

definition putpixel :: "int \<times> int \<Rightarrow> pixel \<Rightarrow> image \<Rightarrow> error + image" where
  "putpixel xy color img =
     (let x = (if fst xy < 0 then fst xy + int (im_width img) else fst xy);
          y = (if snd xy < 0 then snd xy + int (im_height img) else snd xy)
      in if 0 \<le> x \<and> x < int (im_width img) \<and> 0 \<le> y \<and> y < int (im_height img)
         then Inr (img\<lparr>im_pixels :=
                (im_pixels img)[nat y := (im_pixels img ! nat y)[nat x := color]]\<rparr>)
         else Inl IndexError)"

text \<open>A torch tensor of rank 3 or 4, as nested lists of its (exact) values.\<close>

type_synonym tensor3 = "rat list list list"
type_synonym tensor4 = "rat list list list list"

definition channel :: "nat \<Rightarrow> pixel \<Rightarrow> nat" where
  "channel c px = (case px of (r, g, b) \<Rightarrow> if c = 0 then r else if c = 1 then g else b)"

text \<open>\<^verbatim>\<open>T.ToTensor()\<close>: \<open>[C, H, W]\<close>, each byte divided by 255.\<close>

definition pil_to_tensor :: "image \<Rightarrow> tensor3" where
  "pil_to_tensor img =
     map (\<lambda>c. map (\<lambda>row. map (\<lambda>px. of_nat (channel c px) / 255) row) (im_pixels img)) [0, 1, 2]"

text \<open>\<^verbatim>\<open>t.permute(1, 2, 0)\<close>: from \<open>[C, H, W]\<close> to \<open>[H, W, C]\<close>.\<close>

definition permute_1_2_0 :: "tensor3 \<Rightarrow> tensor3" where
  "permute_1_2_0 t =
     (let h = (case t of [] \<Rightarrow> 0 | p # _ \<Rightarrow> length p);
          w = (case t of [] \<Rightarrow> 0 | p # _ \<Rightarrow> (case p of [] \<Rightarrow> 0 | r # _ \<Rightarrow> length r))
      in map (\<lambda>y. map (\<lambda>x. map (\<lambda>c. t ! c ! y ! x) [0..<length t]) [0..<w]) [0..<h])"

text \<open>\<^verbatim>\<open>t.unsqueeze(0)\<close>.\<close>

definition unsqueeze_0 :: "tensor3 \<Rightarrow> tensor4" where
  "unsqueeze_0 t = [t]"

definition pil_to_bhwc :: "image \<Rightarrow> tensor4" where
  "pil_to_bhwc img = unsqueeze_0 (permute_1_2_0 (pil_to_tensor img))"

section \<open>The configuration\<close>

text \<open>
  \<^verbatim>\<open>InfiniteFlux2Config\<close>. The fields \<open>prompt\<close>, \<open>seed_adjustment\<close> and
  \<open>enhance_guidance\<close> are stored as received (no coercion), so they hold any value.
\<close>

record config =
  prompt :: pyval
  height :: int
  width :: int
  reference_images :: "string list option"
  steps :: int
  guidance_scale :: pyfloat
  seed :: int
  seed_adjustment :: pyval
  enhance_prompt :: bool
  enhance_guidance :: pyval
  processed_reference_images :: "image list option"
  prompt_guidance_doc :: string

definition default_config :: config where
  "default_config =
     \<lparr>prompt = PStr ''abstract watercolor sunset'', height = 1024, width = 1024,
      reference_images = None, steps = 28, guidance_scale = Finite 4, seed = 42,
      seed_adjustment = PStr ''increment'', enhance_prompt = False,
      enhance_guidance = PStr ''none'', processed_reference_images = None,
      prompt_guidance_doc = []\<rparr>"

subsection \<open>\<^verbatim>\<open>update_params\<close>\<close>

text \<open>
  \<^verbatim>\<open>if "params" in params: params = params["params"]\<close>. A value that is not a
  dictionary has no \<^verbatim>\<open>get\<close>: the first assignment raises \<^verbatim>\<open>AttributeError\<close>.
\<close>

definition unwrap_params :: "params \<Rightarrow> error + params" where
  "unwrap_params p =
     (case map_of p ''params'' of
        None \<Rightarrow> Inr p
      | Some (PDict q) \<Rightarrow> Inr q
      | Some _ \<Rightarrow> Inl AttributeError)"

text \<open>The assignments of \<^verbatim>\<open>update_params\<close>, one per line of the source, in its order.\<close>

definition set_height :: "params \<Rightarrow> config \<Rightarrow> error + config" where
  "set_height p c = map_sum id (\<lambda>v. c\<lparr>height := v\<rparr>) (py_int (dict_get p ''height'' (PInt (height c))))"

definition set_width :: "params \<Rightarrow> config \<Rightarrow> error + config" where
  "set_width p c = map_sum id (\<lambda>v. c\<lparr>width := v\<rparr>) (py_int (dict_get p ''width'' (PInt (width c))))"

definition set_prompt :: "params \<Rightarrow> config \<Rightarrow> error + config" where
  "set_prompt p c = Inr (c\<lparr>prompt := dict_get p ''prompt'' (prompt c)\<rparr>)"

definition set_steps :: "params \<Rightarrow> config \<Rightarrow> error + config" where
  "set_steps p c = map_sum id (\<lambda>v. c\<lparr>steps := v\<rparr>) (py_int (dict_get p ''steps'' (PInt (steps c))))"

definition set_guidance_scale :: "params \<Rightarrow> config \<Rightarrow> error + config" where
  "set_guidance_scale p c =
     map_sum id (\<lambda>v. c\<lparr>guidance_scale := v\<rparr>)
       (py_float (dict_get p ''guidance_scale'' (PFloat (guidance_scale c))))"

definition set_seed :: "params \<Rightarrow> config \<Rightarrow> error + config" where
  "set_seed p c = map_sum id (\<lambda>v. c\<lparr>seed := v\<rparr>) (py_int (dict_get p ''seed'' (PInt (seed c))))"

definition set_seed_adjustment :: "params \<Rightarrow> config \<Rightarrow> error + config" where
  "set_seed_adjustment p c =
     Inr (c\<lparr>seed_adjustment := dict_get p ''seed_adjustment'' (seed_adjustment c)\<rparr>)"

definition set_enhance_prompt :: "params \<Rightarrow> config \<Rightarrow> error + config" where
  "set_enhance_prompt p c =
     map_sum id (\<lambda>v. c\<lparr>enhance_prompt := v\<rparr>) (truthy (dict_get p ''enhance_prompt'' (PStr ''no'')))"

definition set_enhance_guidance :: "params \<Rightarrow> config \<Rightarrow> error + config" where
  "set_enhance_guidance p c =
     Inr (c\<lparr>enhance_guidance := dict_get p ''enhance_guidance'' (enhance_guidance c)\<rparr>)"

definition reset_processed_reference_images :: "config \<Rightarrow> error + config" where
  "reset_processed_reference_images c = Inr (c\<lparr>processed_reference_images := None\<rparr>)"

text \<open>
  Statements run in order on the live configuration; an exception leaves the
  configuration as the statements before it made it.
\<close>

fun run_statements :: "('s \<Rightarrow> error + 's) list \<Rightarrow> 's \<Rightarrow> 's \<times> error option" where
  "run_statements [] c = (c, None)"
| "run_statements (f # fs) c =
     (case f c of Inl e \<Rightarrow> (c, Some e) | Inr c' \<Rightarrow> run_statements fs c')"

definition update_params :: "params \<Rightarrow> config \<Rightarrow> config \<times> error option" where
  "update_params params0 c =
     (case unwrap_params params0 of
        Inl e \<Rightarrow> (c, Some e)
      | Inr p \<Rightarrow>
          run_statements
            [set_height p, set_width p, set_prompt p, set_steps p, set_guidance_scale p,
             set_seed p, set_seed_adjustment p, set_enhance_prompt p, set_enhance_guidance p,
             reset_processed_reference_images] c)"

section \<open>The placeholder frame\<close>

text \<open>A \<^verbatim>\<open>for\<close> loop whose body may raise, and \<^verbatim>\<open>range(a, b)\<close>.\<close>

fun for_each :: "'a list \<Rightarrow> ('a \<Rightarrow> 's \<Rightarrow> error + 's) \<Rightarrow> 's \<Rightarrow> error + 's" where
  "for_each [] body s = Inr s"
| "for_each (x # xs) body s =
     (case body x s of Inl e \<Rightarrow> Inl e | Inr s' \<Rightarrow> for_each xs body s')"

definition py_range :: "int \<Rightarrow> int \<Rightarrow> int list" where
  "py_range a b = [a..b - 1]"

definition square_size_of :: "int \<Rightarrow> int \<Rightarrow> int" where
  "square_size_of h w = min w h div 16"

text \<open>
  The body of \<^verbatim>\<open>create_placeholder_frame\<close> up to the image, for \<open>h\<close> the configured
  height and \<open>w\<close> the configured width: \<^verbatim>\<open>//\<close> raises \<^verbatim>\<open>ZeroDivisionError\<close> on a zero
  divisor.
\<close>

definition placeholder_image :: "int \<Rightarrow> int \<Rightarrow> error + image" where
  "placeholder_image h w =
     (case image_new w h of
        Inl e \<Rightarrow> Inl e
      | Inr img \<Rightarrow>
          (let square_size = square_size_of h w in
           if square_size = 0 then Inl ZeroDivisionError
           else
             (let num_rows = h div square_size;
                  num_cols = w div square_size
              in for_each (py_range 0 num_rows) (\<lambda>row.
                   for_each (py_range 0 num_cols) (\<lambda>col.
                     (let is_black = ((row + col) mod 2 = 0);
                          color = (if is_black then (0, 0, 0) else (255, 255, 255));
                          y_start = row * square_size;
                          y_end = (row + 1) * square_size;
                          x_start = col * square_size;
                          x_end = (col + 1) * square_size
                      in for_each (py_range y_start (min y_end h)) (\<lambda>y.
                           for_each (py_range x_start (min x_end w)) (\<lambda>x.
                             putpixel (x, y) color))))) img)))"

definition placeholder_tensor :: "int \<Rightarrow> int \<Rightarrow> error + tensor4" where
  "placeholder_tensor h w = map_sum id pil_to_bhwc (placeholder_image h w)"

section \<open>The stream handlers\<close>

text \<open>
  The state of \<^verbatim>\<open>InfiniteFlux2StreamHandlers\<close>. \<open>processor\<close> says whether the stream
  processor is attached (\<^verbatim>\<open>self.processor is not None\<close>). \<open>tasks\<close> is the event loop's
  table of the tasks \<^verbatim>\<open>asyncio.create_task\<close> made, by number; \<open>background_tasks\<close> holds
  numbers of that table. The frame queue is declared and drained, never filled.
\<close>

datatype task_kind = SendFrames | GenerateImages

datatype task_status = Running | Cancelled | Finished

type_synonym task = "task_kind \<times> task_status"

record handlers =
  cfg :: config
  processor :: bool
  background_tasks :: "nat list"
  background_task_started :: bool
  runner_ready :: bool
  inference_in_progress :: bool
  inference_count :: int
  interrupt_requested :: bool
  inference_completed_event :: bool
  frame_queue :: "tensor4 list"
  frame_timestamp :: int
  time_base :: int
  time_base_frac :: rat
  fps :: int
  timestamp_increment :: int
  placeholder_frame :: "tensor4 option"
  current_frame :: "tensor4 option"
  no_audio_in_stream :: bool
  tasks :: "task list"

text \<open>\<^verbatim>\<open>__init__\<close>.\<close>

definition init_handlers :: handlers where
  "init_handlers =
     \<lparr>cfg = default_config, processor = False, background_tasks = [],
      background_task_started = False, runner_ready = False,
      inference_in_progress = False, inference_count = 0, interrupt_requested = False,
      inference_completed_event = False, frame_queue = [], frame_timestamp = 0,
      time_base = 90000, time_base_frac = 1 / 90000, fps = 16,
      timestamp_increment = 90000 div 16, placeholder_frame = None, current_frame = None,
      no_audio_in_stream = True, tasks = []\<rparr>"

definition create_placeholder_frame :: "handlers \<Rightarrow> handlers \<times> error option" where
  "create_placeholder_frame s =
     (case placeholder_tensor (height (cfg s)) (width (cfg s)) of
        Inl e \<Rightarrow> (s, Some e)
      | Inr t \<Rightarrow> (s\<lparr>placeholder_frame := Some t\<rparr>, None))"

text \<open>\<^verbatim>\<open>asyncio.create_task\<close> followed by \<^verbatim>\<open>self.background_tasks.append\<close>.\<close>

definition create_task :: "task_kind \<Rightarrow> handlers \<Rightarrow> handlers" where
  "create_task k s =
     s\<lparr>background_tasks := background_tasks s @ [length (tasks s)],
       tasks := tasks s @ [(k, Running)]\<rparr>"

subsection \<open>\<^verbatim>\<open>on_start\<close>\<close>

definition on_start :: "params \<Rightarrow> handlers \<Rightarrow> handlers \<times> error option" where
  "on_start params0 s =
     (let s1 = s\<lparr>background_task_started := False\<rparr> in
      if \<not> runner_ready s1
      then (s1, Some (RuntimeError ''Model not loaded - please wait for load() to complete''))
      else
        (case update_params params0 (cfg s1) of
           (c, Some e) \<Rightarrow> (s1\<lparr>cfg := c\<rparr>, Some e)
         | (c, None) \<Rightarrow>
             (case create_placeholder_frame (s1\<lparr>cfg := c\<rparr>) of
                (s2, Some e) \<Rightarrow> (s2, Some e)
              | (s2, None) \<Rightarrow>
                  (let s3 = s2\<lparr>current_frame := placeholder_frame s2\<rparr>;
                       s4 = create_task SendFrames s3;
                       s5 = create_task GenerateImages s4;
                       s6 = s5\<lparr>frame_timestamp := 0\<rparr>
                   in if fps s6 = 0 then (s6, Some ZeroDivisionError)
                      else (s6\<lparr>timestamp_increment := time_base s6 div fps s6\<rparr>, None)))))"

subsection \<open>\<^verbatim>\<open>on_stop\<close>\<close>

text \<open>
  \<^verbatim>\<open>asyncio.wait_for(event.wait(), timeout)\<close>, given after how long the event is set
  (\<open>None\<close>: never): the result and the time the caller was suspended.
\<close>

definition wait_for :: "rat option \<Rightarrow> rat \<Rightarrow> (error + unit) \<times> rat" where
  "wait_for set_after timeout =
     (case set_after of
        Some d \<Rightarrow> (if d < timeout then (Inr (), d) else (Inl TimeoutError, timeout))
      | None \<Rightarrow> (Inl TimeoutError, timeout))"

text \<open>\<^verbatim>\<open>while not q.empty(): q.get_nowait()\<close>.\<close>

fun drain :: "'a list \<Rightarrow> 'a list" where
  "drain [] = []"
| "drain (x # xs) = drain xs"

text \<open>\<^verbatim>\<open>if not task.done(): task.cancel()\<close>.\<close>

definition cancel_task :: "nat \<Rightarrow> task list \<Rightarrow> task list" where
  "cancel_task i ts =
     (if i < length ts \<and> snd (ts ! i) = Running then ts[i := (fst (ts ! i), Cancelled)] else ts)"

record stop_result =
  stopped :: handlers
  raised :: "error option"
  waited :: rat
  warnings :: "string list"

definition on_stop :: "rat option \<Rightarrow> handlers \<Rightarrow> stop_result" where
  "on_stop set_after s =
     (let s1 = s\<lparr>interrupt_requested := True\<rparr>;
          w = (if inference_in_progress s1 then wait_for set_after 20 else (Inr (), 0));
          caught =
            (case fst w of
               Inr u \<Rightarrow> Inr []
             | Inl e \<Rightarrow>
                 (if e = TimeoutError
                  then Inr [''Inference did not complete within 20 seconds, proceeding anyway'']
                  else Inl e))
      in case caught of
           Inl e \<Rightarrow> \<lparr>stopped = s1, raised = Some e, waited = snd w, warnings = []\<rparr>
         | Inr logged \<Rightarrow>
             (let s2 = s1\<lparr>frame_queue := drain (frame_queue s1)\<rparr>;
                  s3 = s2\<lparr>tasks := fold cancel_task (background_tasks s2) (tasks s2)\<rparr>;
                  s4 = s3\<lparr>background_tasks := []\<rparr>;
                  s5 = s4\<lparr>background_task_started := False\<rparr>
              in \<lparr>stopped = s5, raised = None, waited = snd w, warnings = logged\<rparr>))"

section \<open>The synthesis job\<close>

text \<open>
  What lies outside the worker during one synthesis attempt: the text encoder behind
  \<^verbatim>\<open>enhance_prompt\<close> (given the enhancement guidance, the guidance document and the
  prompt, it raises with a message or returns the enhanced prompt), the diffusion
  pipeline \<^verbatim>\<open>self.pipe\<close> (given the arguments of the call and what its
  \<^verbatim>\<open>callback_on_step_end\<close> does when called, it raises with a message or returns an
  image), whether the pipeline object carries an \<^verbatim>\<open>_interrupt\<close> attribute when the
  call ends, and the entropy \<^verbatim>\<open>random.randint\<close> draws from.
\<close>

record pipe_call =
  generator_seed :: int
  image_arg :: "image list option"
  call_height :: int
  call_width :: int
  call_prompt :: pyval
  call_guidance_scale :: pyfloat
  num_inference_steps :: int

record engine =
  text_encoder :: "pyval \<Rightarrow> string \<Rightarrow> pyval \<Rightarrow> string + string"
  pipe :: "pipe_call \<Rightarrow> bool \<Rightarrow> string + image"
  pipe_has_interrupt :: bool
  entropy :: nat

text \<open>\<^verbatim>\<open>sub in s\<close> for strings.\<close>

fun starts_with :: "string \<Rightarrow> string \<Rightarrow> bool" where
  "starts_with [] s = True"
| "starts_with (c # cs) [] = False"
| "starts_with (c # cs) (d # ds) = (c = d \<and> starts_with cs ds)"

fun contains :: "string \<Rightarrow> string \<Rightarrow> bool" where
  "contains sub [] = (sub = [])"
| "contains sub (d # ds) = (starts_with sub (d # ds) \<or> contains sub ds)"

text \<open>
  The method \<^verbatim>\<open>enhance_prompt\<close>: its instruction interpolates
  \<^verbatim>\<open>self.cfg.enhance_guidance\<close> and \<^verbatim>\<open>self.cfg.prompt_guidance_doc\<close>, read from the
  live configuration.
\<close>

definition enhance_prompt_text :: "engine \<Rightarrow> handlers \<Rightarrow> pyval \<Rightarrow> string + string" where
  "enhance_prompt_text eng s p =
     text_encoder eng (enhance_guidance (cfg s)) (prompt_guidance_doc (cfg s)) p"

text \<open>
  The callback that \<^verbatim>\<open>_create_interrupt_callback\<close> makes, called by the pipeline at the
  end of a step with the handlers as they are then: whether it sets
  \<^verbatim>\<open>pipeline._interrupt\<close>. It does nothing else: it returns \<^verbatim>\<open>callback_kwargs\<close> as
  received and raises nothing.
\<close>

definition interrupt_callback :: "handlers \<Rightarrow> bool" where
  "interrupt_callback s = interrupt_requested s"

text \<open>
  \<^verbatim>\<open>_run_inference_with_callback\<close> runs in a worker thread. Its first statements, up to
  the \<^verbatim>\<open>try\<close>, take the snapshot \<^verbatim>\<open>cfg = copy.deepcopy(self.cfg)\<close>.
\<close>

definition inference_begin :: "handlers \<Rightarrow> config \<times> handlers" where
  "inference_begin s =
     (let s1 = s\<lparr>inference_in_progress := True\<rparr>;
          s2 = s1\<lparr>inference_count := inference_count s1 + 1\<rparr>;
          snapshot = cfg s2;
          s3 = s2\<lparr>inference_completed_event := False\<rparr>
      in (snapshot, s3))"

text \<open>
  The \<^verbatim>\<open>try\<close> statement, for the snapshot \<open>c\<close> and the handlers as they are while the
  thread runs: the result or the exception raised, and the state its \<^verbatim>\<open>finally\<close> leaves.
\<close>

definition inference_run :: "engine \<Rightarrow> config \<Rightarrow> handlers \<Rightarrow> (error + image) \<times> handlers" where
  "inference_run eng c s =
     (let enhanced =
            (if enhance_prompt c
             then map_sum id PStr (enhance_prompt_text eng s (prompt c))
             else Inr (prompt c));
          result =
            (case enhanced of
               Inl msg \<Rightarrow> Inl msg
             | Inr p \<Rightarrow>
                 pipe eng
                   \<lparr>generator_seed = seed c, image_arg = processed_reference_images c,
                    call_height = height c, call_width = width c, call_prompt = p,
                    call_guidance_scale = guidance_scale c, num_inference_steps = steps c\<rparr>
                   (interrupt_callback s));
          outcome =
            (case result of
               Inr img \<Rightarrow> Inr img
             | Inl msg \<Rightarrow>
                 (if contains ''interrupt'' (lower msg) \<or> pipe_has_interrupt eng
                  then Inl (RuntimeError ''Inference was interrupted'')
                  else Inl (EngineError msg)));
          s1 = s\<lparr>inference_in_progress := False\<rparr>;
          s2 = s1\<lparr>inference_completed_event := True\<rparr>
      in (outcome, s2))"

text \<open>
  While the thread of a job runs, and until the generator resumes after it, the event
  loop serves what arrives: a parameter update (one that raises leaves the configuration
  as \<^verbatim>\<open>update_params\<close> left it), or a stream stop, whose first statement sets the
  interrupt flag before \<^verbatim>\<open>on_stop\<close> waits for the job.
\<close>

datatype loop_event = UpdateArrives params | StopArrives

fun concurrently :: "loop_event list \<Rightarrow> handlers \<Rightarrow> handlers" where
  "concurrently [] s = s"
| "concurrently (UpdateArrives p # evs) s =
     concurrently evs (s\<lparr>cfg := fst (update_params p (cfg s))\<rparr>)"
| "concurrently (StopArrives # evs) s = concurrently evs (s\<lparr>interrupt_requested := True\<rparr>)"

text \<open>
  The whole method, for the events \<open>during\<close> that the event loop serves after the
  snapshot is taken and before the thread reads the live handlers (in
  \<^verbatim>\<open>enhance_prompt\<close> and in the callback).
\<close>

definition run_inference_with_callback ::
  "engine \<Rightarrow> loop_event list \<Rightarrow> handlers \<Rightarrow> (error + image) \<times> handlers" where
  "run_inference_with_callback eng during s =
     (case inference_begin s of
        (snapshot, s1) \<Rightarrow> inference_run eng snapshot (concurrently during s1))"

subsection \<open>\<^verbatim>\<open>_generate_images_for_video\<close>\<close>

text \<open>\<^verbatim>\<open>random.randint(a, b)\<close>: a value of \<open>[a, b]\<close>, picked by the entropy.\<close>

definition py_randint :: "int \<Rightarrow> int \<Rightarrow> nat \<Rightarrow> int" where
  "py_randint a b e = a + int e mod (b - a + 1)"

text \<open>The seed update after a job, on the live configuration.\<close>

definition adjust_seed :: "nat \<Rightarrow> config \<Rightarrow> config" where
  "adjust_seed e c =
     (if seed_adjustment c = PStr ''increment'' then c\<lparr>seed := seed c + 1\<rparr>
      else if seed_adjustment c = PStr ''decrement'' then c\<lparr>seed := seed c - 1\<rparr>
      else if seed_adjustment c = PStr ''random'' then c\<lparr>seed := py_randint 0 (2 ^ 32 - 1) e\<rparr>
      else c)"

text \<open>
  The body of the loop after its head: the outcome of the attempt (an exception is caught
  and logged) and the state after it. The generator waits for the thread in
  \<^verbatim>\<open>await asyncio.to_thread\<close>; \<open>during\<close> are the events served while the thread
  runs, \<open>after\<close> those served between the end of the thread and the moment the generator
  resumes. The seed update reads \<^verbatim>\<open>self.cfg\<close> as it is at that moment.
\<close>

definition generate_iteration ::
  "engine \<Rightarrow> loop_event list \<Rightarrow> loop_event list \<Rightarrow> handlers \<Rightarrow> (error + image) \<times> handlers" where
  "generate_iteration eng during after s =
     (let s0 = s\<lparr>interrupt_requested := False\<rparr> in
      case run_inference_with_callback eng during s0 of
        (r, s1) \<Rightarrow>
          (let s2 = concurrently after s1 in
           case r of
             Inl e \<Rightarrow> (Inl e, s2)
           | Inr img \<Rightarrow>
               (let s3 = s2\<lparr>cfg := adjust_seed (entropy eng) (cfg s2)\<rparr>;
                    s4 = s3\<lparr>current_frame := Some (pil_to_bhwc img)\<rparr>
                in (Inr img, s4))))"

text \<open>
  The surroundings of one iteration of the loop: whether the stop event is set when the
  head of the loop reads it, the engine, and the events served during the job and before
  the generator resumes.
\<close>

record iteration =
  stop_event_set :: bool
  surroundings :: engine
  during_job :: "loop_event list"
  before_resume :: "loop_event list"

text \<open>
  The loop, for the surroundings of its successive iterations: the outcomes of the
  attempts, in order, the final state, and the exception that ended the task, if any.
  The head of the loop reads \<^verbatim>\<open>self.processor.server.current_client.stop_event\<close>
  outside the \<^verbatim>\<open>try\<close>: with no processor attached that raises \<^verbatim>\<open>AttributeError\<close>
  out of the task, and with the stop event set the loop ends.
\<close>

fun generate_images_for_video ::
  "iteration list \<Rightarrow> handlers \<Rightarrow> (error + image) list \<times> handlers \<times> error option" where
  "generate_images_for_video [] s = ([], s, None)"
| "generate_images_for_video (it # its) s =
     (if \<not> processor s then ([], s, Some AttributeError)
      else if stop_event_set it then ([], s, None)
      else
        (case generate_iteration (surroundings it) (during_job it) (before_resume it) s of
           (r, s1) \<Rightarrow>
             (case generate_images_for_video its s1 of (rs, s2, e) \<Rightarrow> (r # rs, s2, e))))"

section \<open>The frame emission loop\<close>

datatype frame =
    VideoFrame (frame_tensor: "tensor4 option") (timestamp: int) (frame_time_base: rat)
  | AudioFrame (samples: "rat list list") (timestamp: int) (frame_time_base: rat)
      (sample_format: string) (layout: string)

text \<open>
  \<^verbatim>\<open>torch.zeros((2, int(48000 * (1.0 / self.fps))))\<close>, computed once when the task
  starts: a zero rate raises \<^verbatim>\<open>ZeroDivisionError\<close> and a negative length is refused by
  \<^verbatim>\<open>torch.zeros\<close>. The product is computed exactly here; the target rate of the source
  is 16, a power of two, for which the floating-point product is exact.
\<close>

definition silent_audio_tensor :: "handlers \<Rightarrow> error + rat list list" where
  "silent_audio_tensor s =
     (if fps s = 0 then Inl ZeroDivisionError
      else
        (let n = py_trunc (48000 * (1 / of_int (fps s))) in
         if n < 0 then Inl (RuntimeError ''negative dimension'')
         else Inr (replicate 2 (replicate (nat n) 0))))"

text \<open>
  One pass through the loop body, for the silent audio tensor \<open>silence\<close> of the task: the
  frames handed to the processor.
\<close>

definition send_frame :: "rat list list \<Rightarrow> handlers \<Rightarrow> frame list \<times> handlers" where
  "send_frame silence s =
     (let video_frame = VideoFrame (current_frame s) (frame_timestamp s) (time_base_frac s);
          s1 = s\<lparr>frame_timestamp := frame_timestamp s + timestamp_increment s\<rparr>
      in if processor s1
         then
           (if no_audio_in_stream s1
            then ([video_frame,
                   AudioFrame silence (timestamp video_frame) (time_base_frac s1)
                     ''fltp'' ''stereo''], s1)
            else ([video_frame], s1))
         else ([], s1))"

text \<open>
  What an iteration of \<^verbatim>\<open>_send_frames\<close> finds when it starts: nothing, that its task
  was cancelled, or the stop event set (looked at only when a processor is attached).
  The loop runs for as long as the list of these findings says.
\<close>

datatype loop_check = Proceed | TaskCancelled | StopEventSet

fun send_frames_loop ::
  "rat list list \<Rightarrow> loop_check list \<Rightarrow> handlers \<Rightarrow> frame list \<times> handlers \<times> error option" where
  "send_frames_loop silence [] s = ([], s, None)"
| "send_frames_loop silence (chk # rest) s =
     (if chk = TaskCancelled then ([], s, Some CancelledError)
      else if processor s \<and> chk = StopEventSet then ([], s, None)
      else
        (case send_frame silence s of
           (out, s1) \<Rightarrow>
             (case send_frames_loop silence rest s1 of (outs, s2, e) \<Rightarrow> (out @ outs, s2, e))))"

definition send_frames :: "loop_check list \<Rightarrow> handlers \<Rightarrow> frame list \<times> handlers \<times> error option" where
  "send_frames checks s =
     (case silent_audio_tensor s of
        Inl e \<Rightarrow> ([], s, Some e)
      | Inr silence \<Rightarrow> send_frames_loop silence checks s)"

section \<open>A stream session\<close>

text \<open>
  While a stream runs, the event loop interleaves the passes of the sender (whose silent
  audio tensor is \<open>silence\<close>), the iterations of the generator (each with its engine and
  the events served during its job and before it resumes) and the parameter updates it
  receives; an update that raises leaves the configuration as \<^verbatim>\<open>update_params\<close>
  left it. With no processor attached the generator task has ended at the head of its
  loop, and no iteration runs. A session returns the frames emitted, the outcomes of the
  synthesis attempts and the final state.
\<close>

datatype activity =
    SenderPass
  | GeneratorIteration engine "loop_event list" "loop_event list"
  | ParameterUpdate params

fun session ::
  "rat list list \<Rightarrow> activity list \<Rightarrow> handlers \<Rightarrow> frame list \<times> (error + image) list \<times> handlers" where
  "session silence [] s = ([], [], s)"
| "session silence (SenderPass # as) s =
     (case send_frame silence s of
        (out, s1) \<Rightarrow> (case session silence as s1 of (outs, rs, s2) \<Rightarrow> (out @ outs, rs, s2)))"
| "session silence (GeneratorIteration eng during after # as) s =
     (if processor s
      then
        (case generate_iteration eng during after s of
           (r, s1) \<Rightarrow> (case session silence as s1 of (outs, rs, s2) \<Rightarrow> (outs, r # rs, s2)))
      else session silence as s)"
| "session silence (ParameterUpdate p # as) s =
     session silence as (s\<lparr>cfg := fst (update_params p (cfg s))\<rparr>)"

section \<open>Notions used in the statements\<close>

text \<open>The images of the attempts that returned one, in order.\<close>

fun successes :: "(error + image) list \<Rightarrow> image list" where
  "successes [] = []"
| "successes (Inl e # rs) = successes rs"
| "successes (Inr img # rs) = img # successes rs"

text \<open>The timestamps of the video frames of an emitted sequence, in order.\<close>

fun video_timestamps :: "frame list \<Rightarrow> int list" where
  "video_timestamps [] = []"
| "video_timestamps (VideoFrame t ts tb # fs) = ts # video_timestamps fs"
| "video_timestamps (AudioFrame a ts tb f l # fs) = video_timestamps fs"

text \<open>
  An emitted sequence in which every video frame is followed at once by an audio frame
  with the same timestamp and time base and the samples \<open>silence\<close>, and nothing else
  occurs.
\<close>

fun audio_follows_video :: "rat list list \<Rightarrow> frame list \<Rightarrow> bool" where
  "audio_follows_video silence [] = True"
| "audio_follows_video silence (VideoFrame t ts tb # AudioFrame a ts' tb' f l # fs) =
     (a = silence \<and> ts' = ts \<and> tb' = tb \<and> audio_follows_video silence fs)"
| "audio_follows_video silence fs = False"

fun sender_passes :: "activity list \<Rightarrow> nat" where
  "sender_passes [] = 0"
| "sender_passes (SenderPass # as) = Suc (sender_passes as)"
| "sender_passes (a # as) = sender_passes as"

text \<open>An image whose pixel rows match its size, and the pixel at column \<open>x\<close> of row \<open>y\<close>.\<close>

definition wf_image :: "nat \<Rightarrow> nat \<Rightarrow> image \<Rightarrow> bool" where
  "wf_image W H img \<longleftrightarrow>
     im_width img = W \<and> im_height img = H \<and> length (im_pixels img) = H
     \<and> (\<forall>y<H. length (im_pixels img ! y) = W)"

definition pixel_at :: "image \<Rightarrow> nat \<Rightarrow> nat \<Rightarrow> pixel" where
  "pixel_at img x y = im_pixels img ! y ! x"

text \<open>
  \<open>img'\<close> is \<open>img\<close> with the pixels that satisfy \<open>P\<close> set to the colour \<open>c\<close> gives them.
\<close>

definition painted ::
  "nat \<Rightarrow> nat \<Rightarrow> (nat \<Rightarrow> nat \<Rightarrow> bool) \<Rightarrow> (nat \<Rightarrow> nat \<Rightarrow> pixel) \<Rightarrow> image \<Rightarrow> image \<Rightarrow> bool" where
  "painted W H P c img img' \<longleftrightarrow>
     wf_image W H img'
     \<and> (\<forall>x<W. \<forall>y<H. pixel_at img' x y = (if P x y then c x y else pixel_at img x y))"

definition square_color :: "int \<Rightarrow> int \<Rightarrow> pixel" where
  "square_color row col = (if (row + col) mod 2 = 0 then (0, 0, 0) else (255, 255, 255))"

section \<open>Parameter updates\<close>

lemmas setters = set_height_def set_width_def set_prompt_def set_steps_def
  set_guidance_scale_def set_seed_def set_seed_adjustment_def set_enhance_prompt_def
  set_enhance_guidance_def reset_processed_reference_images_def

lemma map_sum_id_Inr: "map_sum id g x = Inr y \<longleftrightarrow> (\<exists>v. x = Inr v \<and> y = g v)"
  by (cases x) auto

lemma map_sum_id_Inl: "map_sum id g x = Inl e \<longleftrightarrow> x = Inl e"
  by (cases x) auto

lemma update_params_success:
  assumes "update_params p0 c = (c', None)"
  shows "\<exists>p. unwrap_params p0 = Inr p
    \<and> py_int (dict_get p ''height'' (PInt (height c))) = Inr (height c')
    \<and> py_int (dict_get p ''width'' (PInt (width c))) = Inr (width c')
    \<and> prompt c' = dict_get p ''prompt'' (prompt c)
    \<and> py_int (dict_get p ''steps'' (PInt (steps c))) = Inr (steps c')
    \<and> py_float (dict_get p ''guidance_scale'' (PFloat (guidance_scale c))) = Inr (guidance_scale c')
    \<and> py_int (dict_get p ''seed'' (PInt (seed c))) = Inr (seed c')
    \<and> seed_adjustment c' = dict_get p ''seed_adjustment'' (seed_adjustment c)
    \<and> truthy (dict_get p ''enhance_prompt'' (PStr ''no'')) = Inr (enhance_prompt c')
    \<and> enhance_guidance c' = dict_get p ''enhance_guidance'' (enhance_guidance c)
    \<and> processed_reference_images c' = None
    \<and> reference_images c' = reference_images c
    \<and> prompt_guidance_doc c' = prompt_guidance_doc c"
  using assms
  by (auto simp: update_params_def setters map_sum_id_Inr map_sum_id_Inl split: sum.splits)

text \<open>
  For every request that \<^verbatim>\<open>update_params\<close> accepts (it returns without raising), with
  \<open>p\<close> the dictionary it reads: each of height, width, prompt, steps, guidance scale,
  seed, seed adjustment and enhancement guidance keeps its value when its key is absent
  and takes the (coerced) value of the request when present; the reference images and the
  guidance document keep their values; and the processed reference images are cleared.
\<close>

lemma update_params_keeps_absent_fields:
  assumes "update_params p0 c = (c', None)" and "unwrap_params p0 = Inr p"
  shows "(case map_of p ''height'' of
            None \<Rightarrow> height c' = height c | Some v \<Rightarrow> py_int v = Inr (height c'))
    \<and> (case map_of p ''width'' of
            None \<Rightarrow> width c' = width c | Some v \<Rightarrow> py_int v = Inr (width c'))
    \<and> (case map_of p ''prompt'' of
            None \<Rightarrow> prompt c' = prompt c | Some v \<Rightarrow> prompt c' = v)
    \<and> (case map_of p ''steps'' of
            None \<Rightarrow> steps c' = steps c | Some v \<Rightarrow> py_int v = Inr (steps c'))
    \<and> (case map_of p ''guidance_scale'' of
            None \<Rightarrow> guidance_scale c' = guidance_scale c
          | Some v \<Rightarrow> py_float v = Inr (guidance_scale c'))
    \<and> (case map_of p ''seed'' of
            None \<Rightarrow> seed c' = seed c | Some v \<Rightarrow> py_int v = Inr (seed c'))
    \<and> (case map_of p ''seed_adjustment'' of
            None \<Rightarrow> seed_adjustment c' = seed_adjustment c | Some v \<Rightarrow> seed_adjustment c' = v)
    \<and> (case map_of p ''enhance_guidance'' of
            None \<Rightarrow> enhance_guidance c' = enhance_guidance c | Some v \<Rightarrow> enhance_guidance c' = v)
    \<and> processed_reference_images c' = None
    \<and> reference_images c' = reference_images c
    \<and> prompt_guidance_doc c' = prompt_guidance_doc c"
proof -
  from update_params_success [OF assms(1)] assms(2)
  have s: "py_int (dict_get p ''height'' (PInt (height c))) = Inr (height c')"
    "py_int (dict_get p ''width'' (PInt (width c))) = Inr (width c')"
    "prompt c' = dict_get p ''prompt'' (prompt c)"
    "py_int (dict_get p ''steps'' (PInt (steps c))) = Inr (steps c')"
    "py_float (dict_get p ''guidance_scale'' (PFloat (guidance_scale c))) = Inr (guidance_scale c')"
    "py_int (dict_get p ''seed'' (PInt (seed c))) = Inr (seed c')"
    "seed_adjustment c' = dict_get p ''seed_adjustment'' (seed_adjustment c)"
    "enhance_guidance c' = dict_get p ''enhance_guidance'' (enhance_guidance c)"
    "processed_reference_images c' = None"
    "reference_images c' = reference_images c"
    "prompt_guidance_doc c' = prompt_guidance_doc c"
    by auto
  have "case map_of p ''height'' of
          None \<Rightarrow> height c' = height c | Some v \<Rightarrow> py_int v = Inr (height c')"
    using s(1) by (auto simp: dict_get_def py_int_def split: option.splits)
  moreover have "case map_of p ''width'' of
          None \<Rightarrow> width c' = width c | Some v \<Rightarrow> py_int v = Inr (width c')"
    using s(2) by (auto simp: dict_get_def py_int_def split: option.splits)
  moreover have "case map_of p ''prompt'' of
          None \<Rightarrow> prompt c' = prompt c | Some v \<Rightarrow> prompt c' = v"
    using s(3) by (auto simp: dict_get_def split: option.splits)
  moreover have "case map_of p ''steps'' of
          None \<Rightarrow> steps c' = steps c | Some v \<Rightarrow> py_int v = Inr (steps c')"
    using s(4) by (auto simp: dict_get_def py_int_def split: option.splits)
  moreover have "case map_of p ''guidance_scale'' of
          None \<Rightarrow> guidance_scale c' = guidance_scale c
        | Some v \<Rightarrow> py_float v = Inr (guidance_scale c')"
    using s(5) by (auto simp: dict_get_def py_float_def split: option.splits)
  moreover have "case map_of p ''seed'' of
          None \<Rightarrow> seed c' = seed c | Some v \<Rightarrow> py_int v = Inr (seed c')"
    using s(6) by (auto simp: dict_get_def py_int_def split: option.splits)
  moreover have "case map_of p ''seed_adjustment'' of
          None \<Rightarrow> seed_adjustment c' = seed_adjustment c | Some v \<Rightarrow> seed_adjustment c' = v"
    using s(7) by (auto simp: dict_get_def split: option.splits)
  moreover have "case map_of p ''enhance_guidance'' of
          None \<Rightarrow> enhance_guidance c' = enhance_guidance c | Some v \<Rightarrow> enhance_guidance c' = v"
    using s(8) by (auto simp: dict_get_def split: option.splits)
  ultimately show ?thesis
    using s(9-11) by simp
qed

text \<open>
  C6. The claim says that every field whose key is absent from the request keeps its
  previous value. \<^verbatim>\<open>update_params\<close> reads each of height, width, prompt, steps,
  guidance scale, seed, seed adjustment and enhancement guidance with the current value
  as the default of \<^verbatim>\<open>params.get\<close> (\<open>update_params_keeps_absent_fields\<close>), but the
  enhancement toggle with the literal default \<^verbatim>\<open>"no"\<close>. Below: a request turns the
  toggle on; the next request holds only a prompt, no key \<^verbatim>\<open>enhance_prompt\<close>; it is
  accepted, and the toggle is off again.
\<close>

theorem update_params_resets_absent_toggle:
  "update_params [(''enhance_prompt'', PStr ''yes'')] default_config
     = (default_config\<lparr>enhance_prompt := True\<rparr>, None)
   \<and> map_of [(''prompt'', PStr ''a red fox'')] ''enhance_prompt'' = None
   \<and> update_params [(''prompt'', PStr ''a red fox'')] (default_config\<lparr>enhance_prompt := True\<rparr>)
     = (default_config\<lparr>prompt := PStr ''a red fox'', enhance_prompt := False\<rparr>, None)
   \<and> enhance_prompt (default_config\<lparr>prompt := PStr ''a red fox'', enhance_prompt := False\<rparr>)
     \<noteq> enhance_prompt (default_config\<lparr>enhance_prompt := True\<rparr>)"
proof -
  have "update_params [(''enhance_prompt'', PStr ''yes'')] default_config
     = (default_config\<lparr>enhance_prompt := True\<rparr>, None)"
    by code_simp
  moreover have "update_params [(''prompt'', PStr ''a red fox'')] (default_config\<lparr>enhance_prompt := True\<rparr>)
     = (default_config\<lparr>prompt := PStr ''a red fox'', enhance_prompt := False\<rparr>, None)"
    by code_simp
  ultimately show ?thesis by simp
qed

text \<open>
  C7, as the source has it. The claim says that a malformed value leaves the prior
  configuration fully intact. \<^verbatim>\<open>update_params\<close> has no validation pass and no
  rollback: it assigns field after field, and the coercion that fails raises from the
  middle of that sequence. So: when an update raises, it raises at the first statement
  whose coercion fails, in the order height, width, steps, guidance scale, seed,
  enhancement toggle; the fields assigned before that statement hold the values of the
  request, and that field, every later field and the processed reference images keep
  their prior values. The prior configuration is fully intact when the request is not a
  dictionary or when the height is the malformed field.
\<close>

theorem update_params_failure_keeps_prefix:
  assumes "update_params p0 c = (c', Some e)"
  shows "(unwrap_params p0 = Inl e \<and> c' = c)
    \<or> (\<exists>p. unwrap_params p0 = Inr p \<and>
         ((py_int (dict_get p ''height'' (PInt (height c))) = Inl e \<and> c' = c)
        \<or> (\<exists>h. py_int (dict_get p ''height'' (PInt (height c))) = Inr h
              \<and> py_int (dict_get p ''width'' (PInt (width c))) = Inl e
              \<and> c' = c\<lparr>height := h\<rparr>)
        \<or> (\<exists>h w. py_int (dict_get p ''height'' (PInt (height c))) = Inr h
              \<and> py_int (dict_get p ''width'' (PInt (width c))) = Inr w
              \<and> py_int (dict_get p ''steps'' (PInt (steps c))) = Inl e
              \<and> c' = c\<lparr>height := h, width := w, prompt := dict_get p ''prompt'' (prompt c)\<rparr>)
        \<or> (\<exists>h w n. py_int (dict_get p ''height'' (PInt (height c))) = Inr h
              \<and> py_int (dict_get p ''width'' (PInt (width c))) = Inr w
              \<and> py_int (dict_get p ''steps'' (PInt (steps c))) = Inr n
              \<and> py_float (dict_get p ''guidance_scale'' (PFloat (guidance_scale c))) = Inl e
              \<and> c' = c\<lparr>height := h, width := w, prompt := dict_get p ''prompt'' (prompt c),
                        steps := n\<rparr>)
        \<or> (\<exists>h w n g. py_int (dict_get p ''height'' (PInt (height c))) = Inr h
              \<and> py_int (dict_get p ''width'' (PInt (width c))) = Inr w
              \<and> py_int (dict_get p ''steps'' (PInt (steps c))) = Inr n
              \<and> py_float (dict_get p ''guidance_scale'' (PFloat (guidance_scale c))) = Inr g
              \<and> py_int (dict_get p ''seed'' (PInt (seed c))) = Inl e
              \<and> c' = c\<lparr>height := h, width := w, prompt := dict_get p ''prompt'' (prompt c),
                        steps := n, guidance_scale := g\<rparr>)
        \<or> (\<exists>h w n g d. py_int (dict_get p ''height'' (PInt (height c))) = Inr h
              \<and> py_int (dict_get p ''width'' (PInt (width c))) = Inr w
              \<and> py_int (dict_get p ''steps'' (PInt (steps c))) = Inr n
              \<and> py_float (dict_get p ''guidance_scale'' (PFloat (guidance_scale c))) = Inr g
              \<and> py_int (dict_get p ''seed'' (PInt (seed c))) = Inr d
              \<and> truthy (dict_get p ''enhance_prompt'' (PStr ''no'')) = Inl e
              \<and> c' = c\<lparr>height := h, width := w, prompt := dict_get p ''prompt'' (prompt c),
                        steps := n, guidance_scale := g, seed := d,
                        seed_adjustment := dict_get p ''seed_adjustment'' (seed_adjustment c)\<rparr>)))"
  using assms
  by (auto simp: update_params_def setters map_sum_id_Inr map_sum_id_Inl split: sum.splits)

theorem update_params_failure_keeps_prefix_witness:
  "update_params [(''height'', PStr ''512''), (''width'', PStr ''abc'')] default_config
     = (default_config\<lparr>height := 512\<rparr>, Some ValueError)
   \<and> py_int (dict_get [(''height'', PStr ''512''), (''width'', PStr ''abc'')] ''height''
        (PInt (height default_config))) = Inr 512
   \<and> py_int (dict_get [(''height'', PStr ''512''), (''width'', PStr ''abc'')] ''width''
        (PInt (width default_config))) = Inl ValueError"
proof -
  have h: "update_params [(''height'', PStr ''512''), (''width'', PStr ''abc'')] default_config
     = (default_config\<lparr>height := 512\<rparr>, Some ValueError)"
    by code_simp
  have u: "unwrap_params [(''height'', PStr ''512''), (''width'', PStr ''abc'')]
     = Inr [(''height'', PStr ''512''), (''width'', PStr ''abc'')]"
    by (simp add: unwrap_params_def)
  have a: "py_int (dict_get [(''height'', PStr ''512''), (''width'', PStr ''abc'')] ''height''
        (PInt (height default_config))) = Inr 512"
    by code_simp
  have b: "py_int (dict_get [(''height'', PStr ''512''), (''width'', PStr ''abc'')] ''width''
        (PInt (width default_config))) = Inl ValueError"
    by code_simp
  show ?thesis
    using h a b update_params_failure_keeps_prefix [OF h] by simp
qed

text \<open>
  The claim as stated fails: the request sets a well-formed height and a malformed
  width; the call raises and the height has changed.
\<close>

theorem update_params_partial_counterexample:
  "snd (update_params [(''height'', PStr ''512''), (''width'', PStr ''abc'')] default_config)
     = Some ValueError
   \<and> height (fst (update_params [(''height'', PStr ''512''), (''width'', PStr ''abc'')]
        default_config)) = 512
   \<and> height default_config = 1024"
proof -
  have "update_params [(''height'', PStr ''512''), (''width'', PStr ''abc'')] default_config
     = (default_config\<lparr>height := 512\<rparr>, Some ValueError)"
    by code_simp
  then show ?thesis by (simp add: default_config_def)
qed

section \<open>The placeholder is a checkerboard\<close>

lemma image_new_wf:
  assumes "0 \<le> w" "0 \<le> h"
  shows "\<exists>img. image_new w h = Inr img \<and> wf_image (nat w) (nat h) img
           \<and> (\<forall>x<nat w. \<forall>y<nat h. pixel_at img x y = (0, 0, 0))"
  using assms by (simp add: image_new_def wf_image_def pixel_at_def)

lemma putpixel_painted:
  assumes "wf_image W H img" "0 \<le> x" "x < int W" "0 \<le> y" "y < int H"
  shows "\<exists>img'. putpixel (x, y) c img = Inr img'
           \<and> painted W H (\<lambda>x' y'. int x' = x \<and> int y' = y) (\<lambda>x' y'. c) img img'"
proof -
  let ?img' = "img\<lparr>im_pixels := (im_pixels img)[nat y := (im_pixels img ! nat y)[nat x := c]]\<rparr>"
  have p: "putpixel (x, y) c img = Inr ?img'"
    using assms by (simp add: putpixel_def wf_image_def)
  have w: "wf_image W H ?img'"
    using assms by (auto simp: wf_image_def nth_list_update)
  have "pixel_at ?img' x' y' = (if int x' = x \<and> int y' = y then c else pixel_at img x' y')"
    if "x' < W" "y' < H" for x' y'
    using assms that by (auto simp: pixel_at_def wf_image_def nth_list_update)
  then show ?thesis
    using p w by (auto simp: painted_def)
qed

lemma for_each_painted:
  assumes "wf_image W H img"
    and "\<And>a i. a \<in> set as \<Longrightarrow> wf_image W H i \<Longrightarrow>
           \<exists>i'. body a i = Inr i' \<and> painted W H (\<lambda>x y. key x y = a \<and> Q x y) (c a) i i'"
  shows "\<exists>img'. for_each as body img = Inr img'
           \<and> painted W H (\<lambda>x y. key x y \<in> set as \<and> Q x y) (\<lambda>x y. c (key x y) x y) img img'"
  using assms
proof (induction as arbitrary: img)
  case Nil
  then show ?case by (simp add: painted_def)
next
  case (Cons a as)
  obtain i1 where b: "body a img = Inr i1"
    and p1: "painted W H (\<lambda>x y. key x y = a \<and> Q x y) (c a) img i1"
    using Cons.prems(2) [of a img] Cons.prems(1) by auto
  have w1: "wf_image W H i1" using p1 by (simp add: painted_def)
  obtain i2 where r: "for_each as body i1 = Inr i2"
    and p2: "painted W H (\<lambda>x y. key x y \<in> set as \<and> Q x y) (\<lambda>x y. c (key x y) x y) i1 i2"
    using Cons.IH [OF w1] Cons.prems(2) by auto
  have "painted W H (\<lambda>x y. key x y \<in> set (a # as) \<and> Q x y) (\<lambda>x y. c (key x y) x y) img i2"
    using p1 p2 by (auto simp: painted_def)
  then show ?case using b r by simp
qed


lemma painted_cong:
  assumes "painted W H P c img img'"
    and "\<And>x y. x < W \<Longrightarrow> y < H \<Longrightarrow> P x y = P' x y"
    and "\<And>x y. x < W \<Longrightarrow> y < H \<Longrightarrow> P x y \<Longrightarrow> c x y = c' x y"
  shows "painted W H P' c' img img'"
  using assms by (auto simp: painted_def)

lemma fill_row:
  assumes "wf_image W H img" "0 \<le> y" "y < int H" "\<forall>x\<in>set xs. 0 \<le> x \<and> x < int W"
  shows "\<exists>img'. for_each xs (\<lambda>x. putpixel (x, y) c) img = Inr img'
           \<and> painted W H (\<lambda>x' y'. int y' = y \<and> int x' \<in> set xs) (\<lambda>x' y'. c) img img'"
proof -
  have "\<exists>img'. for_each xs (\<lambda>x. putpixel (x, y) c) img = Inr img'
           \<and> painted W H (\<lambda>x' y'. int x' \<in> set xs \<and> int y' = y) (\<lambda>x' y'. c) img img'"
  proof (rule for_each_painted [where key = "\<lambda>x' y'. int x'" and c = "\<lambda>a x' y'. c", OF assms(1)])
    fix a i assume "a \<in> set xs" "wf_image W H i"
    then show "\<exists>i'. putpixel (a, y) c i = Inr i'
        \<and> painted W H (\<lambda>x' y'. int x' = a \<and> int y' = y) (\<lambda>x' y'. c) i i'"
      using putpixel_painted [of W H i a y c] assms(2-4) by auto
  qed
  then show ?thesis
    by (auto elim!: painted_cong)
qed

lemma fill_rect:
  assumes "wf_image W H img" "\<forall>y\<in>set ys. 0 \<le> y \<and> y < int H" "\<forall>x\<in>set xs. 0 \<le> x \<and> x < int W"
  shows "\<exists>img'. for_each ys (\<lambda>y. for_each xs (\<lambda>x. putpixel (x, y) c)) img = Inr img'
           \<and> painted W H (\<lambda>x' y'. int y' \<in> set ys \<and> int x' \<in> set xs) (\<lambda>x' y'. c) img img'"
proof (rule for_each_painted [where key = "\<lambda>x' y'. int y'" and c = "\<lambda>a x' y'. c", OF assms(1)])
  fix a i assume "a \<in> set ys" "wf_image W H i"
  then show "\<exists>i'. for_each xs (\<lambda>x. putpixel (x, a) c) i = Inr i'
      \<and> painted W H (\<lambda>x' y'. int y' = a \<and> int x' \<in> set xs) (\<lambda>x' y'. c) i i'"
    using fill_row [of W H i a xs c] assms(2,3) by auto
qed

lemma int_div_eq_iff:
  fixes a q sq :: int
  assumes "0 < sq"
  shows "a div sq = q \<longleftrightarrow> q * sq \<le> a \<and> a < (q + 1) * sq"
proof
  assume d: "a div sq = q"
  have "a = sq * (a div sq) + a mod sq" by simp
  moreover have "0 \<le> a mod sq" "a mod sq < sq" using assms by simp_all
  ultimately show "q * sq \<le> a \<and> a < (q + 1) * sq"
    using d by (auto simp: algebra_simps)
next
  assume h: "q * sq \<le> a \<and> a < (q + 1) * sq"
  show "a div sq = q"
    by (rule int_div_pos_eq [of a sq q "a - q * sq"]) (use h in \<open>auto simp: algebra_simps\<close>)
qed

lemma in_py_range: "v \<in> set (py_range a b) \<longleftrightarrow> a \<le> v \<and> v < b"
  by (auto simp: py_range_def)

lemma paint_square:
  assumes wf: "wf_image (nat w) (nat h) img" and sq: "0 < sq"
    and row: "0 \<le> row" and col: "0 \<le> col"
  shows "\<exists>img'.
      for_each (py_range (row * sq) (min ((row + 1) * sq) h)) (\<lambda>y.
        for_each (py_range (col * sq) (min ((col + 1) * sq) w)) (\<lambda>x.
          putpixel (x, y) c)) img = Inr img'
      \<and> painted (nat w) (nat h) (\<lambda>x' y'. int x' div sq = col \<and> int y' div sq = row)
          (\<lambda>x' y'. c) img img'"
proof -
  have ys: "\<forall>y\<in>set (py_range (row * sq) (min ((row + 1) * sq) h)). 0 \<le> y \<and> y < int (nat h)"
    using row sq by (auto simp: in_py_range intro: order_trans [of 0 "row * sq"])
  have xs: "\<forall>x\<in>set (py_range (col * sq) (min ((col + 1) * sq) w)). 0 \<le> x \<and> x < int (nat w)"
    using col sq by (auto simp: in_py_range intro: order_trans [of 0 "col * sq"])
  obtain img' where
    r: "for_each (py_range (row * sq) (min ((row + 1) * sq) h)) (\<lambda>y.
        for_each (py_range (col * sq) (min ((col + 1) * sq) w)) (\<lambda>x.
          putpixel (x, y) c)) img = Inr img'"
    and p: "painted (nat w) (nat h)
        (\<lambda>x' y'. int y' \<in> set (py_range (row * sq) (min ((row + 1) * sq) h))
                \<and> int x' \<in> set (py_range (col * sq) (min ((col + 1) * sq) w)))
        (\<lambda>x' y'. c) img img'"
    using fill_rect [OF wf ys xs, of c] by auto
  have "painted (nat w) (nat h) (\<lambda>x' y'. int x' div sq = col \<and> int y' div sq = row)
          (\<lambda>x' y'. c) img img'"
  proof (rule painted_cong [OF p])
    fix x y assume "x < nat w" "y < nat h"
    then show "(int y \<in> set (py_range (row * sq) (min ((row + 1) * sq) h))
                \<and> int x \<in> set (py_range (col * sq) (min ((col + 1) * sq) w)))
           = (int x div sq = col \<and> int y div sq = row)"
      using sq by (auto simp: in_py_range int_div_eq_iff)
  qed simp
  then show ?thesis using r by auto
qed

lemma paint_grid:
  assumes wf: "wf_image (nat w) (nat h) img" and sq: "0 < sq"
  shows "\<exists>img'.
      for_each (py_range 0 nr) (\<lambda>row.
        for_each (py_range 0 nc) (\<lambda>col.
          for_each (py_range (row * sq) (min ((row + 1) * sq) h)) (\<lambda>y.
            for_each (py_range (col * sq) (min ((col + 1) * sq) w)) (\<lambda>x.
              putpixel (x, y) (square_color row col))))) img = Inr img'
      \<and> painted (nat w) (nat h)
          (\<lambda>x' y'. int y' div sq < nr \<and> int x' div sq < nc)
          (\<lambda>x' y'. square_color (int y' div sq) (int x' div sq)) img img'"
proof -
  have "\<exists>img'.
      for_each (py_range 0 nr) (\<lambda>row.
        for_each (py_range 0 nc) (\<lambda>col.
          for_each (py_range (row * sq) (min ((row + 1) * sq) h)) (\<lambda>y.
            for_each (py_range (col * sq) (min ((col + 1) * sq) w)) (\<lambda>x.
              putpixel (x, y) (square_color row col))))) img = Inr img'
      \<and> painted (nat w) (nat h)
          (\<lambda>x' y'. int y' div sq \<in> set (py_range 0 nr) \<and> int x' div sq \<in> set (py_range 0 nc))
          (\<lambda>x' y'. square_color (int y' div sq) (int x' div sq)) img img'"
  proof (rule for_each_painted [where key = "\<lambda>x' y'. int y' div sq"
        and c = "\<lambda>row x' y'. square_color row (int x' div sq)", OF wf])
    fix row i assume row: "row \<in> set (py_range 0 nr)" and wi: "wf_image (nat w) (nat h) i"
    have "\<exists>i'. for_each (py_range 0 nc) (\<lambda>col.
          for_each (py_range (row * sq) (min ((row + 1) * sq) h)) (\<lambda>y.
            for_each (py_range (col * sq) (min ((col + 1) * sq) w)) (\<lambda>x.
              putpixel (x, y) (square_color row col)))) i = Inr i'
        \<and> painted (nat w) (nat h)
            (\<lambda>x' y'. int x' div sq \<in> set (py_range 0 nc) \<and> int y' div sq = row)
            (\<lambda>x' y'. square_color row (int x' div sq)) i i'"
    proof (rule for_each_painted [where key = "\<lambda>x' y'. int x' div sq"
          and c = "\<lambda>col x' y'. square_color row col", OF wi])
      fix col j assume col: "col \<in> set (py_range 0 nc)" and wj: "wf_image (nat w) (nat h) j"
      show "\<exists>i'. for_each (py_range (row * sq) (min ((row + 1) * sq) h)) (\<lambda>y.
            for_each (py_range (col * sq) (min ((col + 1) * sq) w)) (\<lambda>x.
              putpixel (x, y) (square_color row col))) j = Inr i'
          \<and> painted (nat w) (nat h) (\<lambda>x' y'. int x' div sq = col \<and> int y' div sq = row)
              (\<lambda>x' y'. square_color row col) j i'"
        using paint_square [OF wj sq, of row col "square_color row col"] row col
        by (simp add: in_py_range)
    qed
    then show "\<exists>i'. for_each (py_range 0 nc) (\<lambda>col.
          for_each (py_range (row * sq) (min ((row + 1) * sq) h)) (\<lambda>y.
            for_each (py_range (col * sq) (min ((col + 1) * sq) w)) (\<lambda>x.
              putpixel (x, y) (square_color row col)))) i = Inr i'
        \<and> painted (nat w) (nat h)
            (\<lambda>x' y'. int y' div sq = row \<and> int x' div sq \<in> set (py_range 0 nc))
            (\<lambda>x' y'. square_color row (int x' div sq)) i i'"
      by (auto elim!: painted_cong)
  qed
  moreover have "0 \<le> int v div sq" for v :: nat
    using sq by (simp add: pos_imp_zdiv_nonneg_iff)
  ultimately show ?thesis
    by (auto simp: in_py_range elim!: painted_cong)
qed


lemma placeholder_image_painted:
  assumes "16 \<le> min h w"
  shows "\<exists>img. placeholder_image h w = Inr img \<and> wf_image (nat w) (nat h) img
    \<and> (\<forall>x<nat w. \<forall>y<nat h. pixel_at img x y =
         (if int y div square_size_of h w < h div square_size_of h w
             \<and> int x div square_size_of h w < w div square_size_of h w
          then square_color (int y div square_size_of h w) (int x div square_size_of h w)
          else (0, 0, 0)))"
proof -
  have hw: "0 \<le> w" "0 \<le> h" using assms by auto
  have sq: "0 < square_size_of h w"
    using assms by (simp add: square_size_of_def pos_imp_zdiv_pos_iff)
  obtain img0 where n: "image_new w h = Inr img0" and w0: "wf_image (nat w) (nat h) img0"
    and b0: "\<forall>x<nat w. \<forall>y<nat h. pixel_at img0 x y = (0, 0, 0)"
    using image_new_wf [OF hw] by auto
  obtain img where
    r: "for_each (py_range 0 (h div square_size_of h w)) (\<lambda>row.
        for_each (py_range 0 (w div square_size_of h w)) (\<lambda>col.
          for_each (py_range (row * square_size_of h w) (min ((row + 1) * square_size_of h w) h)) (\<lambda>y.
            for_each (py_range (col * square_size_of h w) (min ((col + 1) * square_size_of h w) w)) (\<lambda>x.
              putpixel (x, y) (square_color row col))))) img0 = Inr img"
    and p: "painted (nat w) (nat h)
          (\<lambda>x' y'. int y' div square_size_of h w < h div square_size_of h w
                  \<and> int x' div square_size_of h w < w div square_size_of h w)
          (\<lambda>x' y'. square_color (int y' div square_size_of h w) (int x' div square_size_of h w))
          img0 img"
    using paint_grid [OF w0 sq, of "h div square_size_of h w" "w div square_size_of h w"] by auto
  have "placeholder_image h w = Inr img"
    using n sq r by (simp add: placeholder_image_def Let_def square_color_def)
  then show ?thesis
    using p b0 by (auto simp: painted_def)
qed

lemma pil_to_bhwc_wf:
  assumes "wf_image W H img" "0 < H"
  shows "length (pil_to_bhwc img) = 1 \<and> length (pil_to_bhwc img ! 0) = H
    \<and> (\<forall>y<H. length (pil_to_bhwc img ! 0 ! y) = W
        \<and> (\<forall>x<W. pil_to_bhwc img ! 0 ! y ! x =
              [of_nat (channel 0 (pixel_at img x y)) / 255,
               of_nat (channel 1 (pixel_at img x y)) / 255,
               of_nat (channel 2 (pixel_at img x y)) / 255]))"
proof -
  define T where "T = pil_to_tensor img"
  obtain r rs where rows: "im_pixels img = r # rs"
    using assms by (cases "im_pixels img") (auto simp: wf_image_def)
  have len: "length (im_pixels img) = H" "\<And>y. y < H \<Longrightarrow> length (im_pixels img ! y) = W"
    using assms by (auto simp: wf_image_def)
  have lr: "length r = W"
    using len(2) [of 0] assms(2) rows by simp
  have shape: "\<exists>p ps q qs. T = p # ps \<and> length T = 3 \<and> p = q # qs \<and> length p = H \<and> length q = W"
    using rows lr len(1) by (simp add: T_def pil_to_tensor_def)
  have t: "permute_1_2_0 T =
     map (\<lambda>y. map (\<lambda>x. map (\<lambda>c. T ! c ! y ! x) [0..<3]) [0..<W]) [0..<H]"
    using shape by (auto simp: permute_1_2_0_def)
  have v: "T ! c ! y ! x = of_nat (channel c (pixel_at img x y)) / 255"
    if "c < 3" "y < H" "x < W" for c y x
  proof -
    have "c = 0 \<or> c = 1 \<or> c = 2" using that(1) by auto
    then show ?thesis
      using that len by (auto simp: T_def pil_to_tensor_def pixel_at_def)
  qed
  have u: "[0..<3] = [0, 1, 2]" by (simp add: upt_rec)
  have "pil_to_bhwc img = [permute_1_2_0 T]"
    by (simp add: pil_to_bhwc_def unsqueeze_0_def T_def)
  then show ?thesis
    using v by (simp add: t u)
qed

lemma placeholder_tensor_result:
  assumes "16 \<le> min h w"
  shows "\<exists>t. placeholder_tensor h w = Inr t \<and> length t = 1 \<and> length (t ! 0) = nat h
    \<and> (\<forall>y<nat h. length (t ! 0 ! y) = nat w
        \<and> (\<forall>x<nat w. t ! 0 ! y ! x =
              (if int y div square_size_of h w < h div square_size_of h w
                  \<and> int x div square_size_of h w < w div square_size_of h w
                  \<and> (int y div square_size_of h w + int x div square_size_of h w) mod 2 \<noteq> 0
               then [1, 1, 1] else [0, 0, 0])))"
proof -
  obtain img where i: "placeholder_image h w = Inr img" and wf: "wf_image (nat w) (nat h) img"
    and px: "\<forall>x<nat w. \<forall>y<nat h. pixel_at img x y =
         (if int y div square_size_of h w < h div square_size_of h w
             \<and> int x div square_size_of h w < w div square_size_of h w
          then square_color (int y div square_size_of h w) (int x div square_size_of h w)
          else (0, 0, 0))"
    using placeholder_image_painted [OF assms] by auto
  have "0 < nat h" using assms by auto
  from pil_to_bhwc_wf [OF wf this]
  have sh: "length (pil_to_bhwc img) = 1" "length (pil_to_bhwc img ! 0) = nat h"
    and rows: "\<And>y. y < nat h \<Longrightarrow> length (pil_to_bhwc img ! 0 ! y) = nat w"
    and vals: "\<And>y x. y < nat h \<Longrightarrow> x < nat w \<Longrightarrow> pil_to_bhwc img ! 0 ! y ! x =
              [of_nat (channel 0 (pixel_at img x y)) / 255,
               of_nat (channel 1 (pixel_at img x y)) / 255,
               of_nat (channel 2 (pixel_at img x y)) / 255]"
    by auto
  have "pil_to_bhwc img ! 0 ! y ! x =
     (if int y div square_size_of h w < h div square_size_of h w
         \<and> int x div square_size_of h w < w div square_size_of h w
         \<and> (int y div square_size_of h w + int x div square_size_of h w) mod 2 \<noteq> 0
      then [1, 1, 1] else [0, 0, 0])"
    if "y < nat h" "x < nat w" for y x
    using vals [OF that] px that by (simp add: square_color_def channel_def)
  then show ?thesis
    using i sh rows by (simp add: placeholder_tensor_def)
qed

lemma placeholder_tensor_small:
  assumes "0 \<le> min h w" "min h w < 16"
  shows "square_size_of h w = 0" "placeholder_tensor h w = Inl ZeroDivisionError"
proof -
  show sq: "square_size_of h w = 0"
    using assms by (simp add: square_size_of_def min.commute)
  have "0 \<le> w" "0 \<le> h" using assms by auto
  then show "placeholder_tensor h w = Inl ZeroDivisionError"
    using sq by (simp add: placeholder_tensor_def placeholder_image_def image_new_def)
qed

lemma placeholder_tensor_negative:
  assumes "min h w < 0"
  shows "square_size_of h w < 0" "placeholder_tensor h w = Inl ValueError"
proof -
  show "square_size_of h w < 0"
    using assms by (simp add: square_size_of_def min.commute neg_imp_zdiv_neg_iff)
  have "w < 0 \<or> h < 0" using assms by auto
  then show "placeholder_tensor h w = Inl ValueError"
    by (auto simp: placeholder_tensor_def placeholder_image_def image_new_def)
qed

lemma on_start_placeholder_error:
  assumes "runner_ready s" "update_params p (cfg s) = (c, None)"
    "placeholder_tensor (height c) (width c) = Inl e"
  shows "snd (on_start p s) = Some e"
  using assms by (simp add: on_start_def create_placeholder_frame_def Let_def)

lemma on_start_result:
  assumes "on_start p s0 = (s, None)"
  shows "runner_ready s0" "update_params p (cfg s0) = (cfg s, None)"
    "\<exists>t. placeholder_tensor (height (cfg s)) (width (cfg s)) = Inr t \<and> placeholder_frame s = Some t"
    "current_frame s = placeholder_frame s" "frame_timestamp s = 0"
    "timestamp_increment s = time_base s0 div fps s0"
    "processor s = processor s0" "no_audio_in_stream s = no_audio_in_stream s0"
    "fps s = fps s0" "time_base s = time_base s0"
  using assms
  by (auto simp: on_start_def create_placeholder_frame_def create_task_def Let_def
      split: if_splits prod.splits option.splits sum.splits)

lemma on_start_returns:
  assumes "runner_ready s" "update_params p (cfg s) = (c, None)"
    "16 \<le> min (height c) (width c)" "fps s \<noteq> 0"
  shows "snd (on_start p s) = None"
proof -
  obtain t where "placeholder_tensor (height c) (width c) = Inr t"
    using placeholder_tensor_result [OF assms(3)] by auto
  then show ?thesis
    using assms by (simp add: on_start_def create_placeholder_frame_def create_task_def Let_def)
qed

text \<open>
  C9, as the source has it. The claim describes a checkerboard whose squares are clipped
  at the image edges. \<^verbatim>\<open>create_placeholder_frame\<close> paints whole squares only
  (\<^verbatim>\<open>num_rows = height // square_size\<close>, \<^verbatim>\<open>num_cols = width // square_size\<close>), so
  no square ever reaches an edge, and what lies beyond the last whole square is left as
  \<^verbatim>\<open>Image.new\<close> made it. So: for a configured height \<open>h\<close> and width \<open>w\<close> whose minimum is
  at least 16 (below that the creation raises, see C10), the placeholder is a function
  of \<open>h\<close> and \<open>w\<close> alone: \<^verbatim>\<open>create_placeholder_frame\<close> stores the same tensor \<open>t\<close>
  whatever the rest of the state is. The side of a square is \<open>min h w div 16\<close>. The square
  at grid position \<open>(row, col)\<close>, for \<open>row\<close> below \<open>h div side\<close> and \<open>col\<close> below
  \<open>w div side\<close>, is black exactly when \<open>row + col\<close> is even and white otherwise. The
  pixels that lie beyond the last whole square of a row or a column are black. The tensor
  has shape \<open>[1, h, w, 3]\<close>, indexed \<open>t ! 0 ! y ! x ! c\<close> (batch, row, column, channel),
  and its values lie in \<open>[0, 1]\<close>.
\<close>

theorem placeholder_is_checkerboard:
  assumes "16 \<le> min h w"
  shows "\<exists>t. placeholder_tensor h w = Inr t
    \<and> (\<forall>s. height (cfg s) = h \<and> width (cfg s) = w \<longrightarrow>
          create_placeholder_frame s = (s\<lparr>placeholder_frame := Some t\<rparr>, None))
    \<and> square_size_of h w = min h w div 16
    \<and> length t = 1 \<and> length (t ! 0) = nat h
    \<and> (\<forall>y<nat h. length (t ! 0 ! y) = nat w
         \<and> (\<forall>x<nat w. length (t ! 0 ! y ! x) = 3
              \<and> (\<forall>c<3. 0 \<le> t ! 0 ! y ! x ! c \<and> t ! 0 ! y ! x ! c \<le> 1)))
    \<and> (\<forall>row col y x.
          0 \<le> row \<and> row < h div square_size_of h w
          \<and> 0 \<le> col \<and> col < w div square_size_of h w
          \<and> row * square_size_of h w \<le> y \<and> y < min ((row + 1) * square_size_of h w) h
          \<and> col * square_size_of h w \<le> x \<and> x < min ((col + 1) * square_size_of h w) w
          \<longrightarrow> t ! 0 ! nat y ! nat x = (if (row + col) mod 2 = 0 then [0, 0, 0] else [1, 1, 1]))
    \<and> (\<forall>y x. 0 \<le> y \<and> y < h \<and> 0 \<le> x \<and> x < w
          \<and> (h div square_size_of h w * square_size_of h w \<le> y
              \<or> w div square_size_of h w * square_size_of h w \<le> x)
          \<longrightarrow> t ! 0 ! nat y ! nat x = [0, 0, 0])"
proof -
  let ?sq = "square_size_of h w"
  have sq: "0 < ?sq"
    using assms by (simp add: square_size_of_def pos_imp_zdiv_pos_iff)
  obtain t where t: "placeholder_tensor h w = Inr t" and l1: "length t = 1"
    and l2: "length (t ! 0) = nat h"
    and rows: "\<And>y. y < nat h \<Longrightarrow> length (t ! 0 ! y) = nat w"
    and px: "\<And>y x. y < nat h \<Longrightarrow> x < nat w \<Longrightarrow> t ! 0 ! y ! x =
              (if int y div ?sq < h div ?sq \<and> int x div ?sq < w div ?sq
                  \<and> (int y div ?sq + int x div ?sq) mod 2 \<noteq> 0
               then [1, 1, 1] else [0, 0, 0])"
    using placeholder_tensor_result [OF assms] by auto
  have a: "\<forall>s. height (cfg s) = h \<and> width (cfg s) = w \<longrightarrow>
          create_placeholder_frame s = (s\<lparr>placeholder_frame := Some t\<rparr>, None)"
    using t by (simp add: create_placeholder_frame_def)
  have b: "?sq = min h w div 16"
    by (simp add: square_size_of_def min.commute)
  have c: "\<forall>y<nat h. length (t ! 0 ! y) = nat w
         \<and> (\<forall>x<nat w. length (t ! 0 ! y ! x) = 3
              \<and> (\<forall>c<3. 0 \<le> t ! 0 ! y ! x ! c \<and> t ! 0 ! y ! x ! c \<le> 1))"
  proof (intro allI impI conjI)
    fix y assume "y < nat h" then show "length (t ! 0 ! y) = nat w" by (rule rows)
  next
    fix y x assume "y < nat h" "x < nat w"
    then show "length (t ! 0 ! y ! x) = 3" by (simp add: px)
  next
    fix y x c :: nat assume yx: "y < nat h" "x < nat w" and "c < 3"
    then have "c = 0 \<or> c = 1 \<or> c = 2" by auto
    then show "0 \<le> t ! 0 ! y ! x ! c" using yx by (auto simp: px)
  next
    fix y x c :: nat assume yx: "y < nat h" "x < nat w" and "c < 3"
    then have "c = 0 \<or> c = 1 \<or> c = 2" by auto
    then show "t ! 0 ! y ! x ! c \<le> 1" using yx by (auto simp: px)
  qed
  have d: "t ! 0 ! nat y ! nat x = (if (row + col) mod 2 = 0 then [0, 0, 0] else [1, 1, 1])"
    if "0 \<le> row" "row < h div ?sq" "0 \<le> col" "col < w div ?sq"
      "row * ?sq \<le> y" "y < min ((row + 1) * ?sq) h"
      "col * ?sq \<le> x" "x < min ((col + 1) * ?sq) w" for row col y x
  proof -
    have y0: "0 \<le> y" using that(1,5) sq by (meson mult_nonneg_nonneg order_less_imp_le order_trans)
    have x0: "0 \<le> x" using that(3,7) sq by (meson mult_nonneg_nonneg order_less_imp_le order_trans)
    have "y div ?sq = row" "x div ?sq = col"
      using that sq by (simp_all add: int_div_eq_iff)
    then show ?thesis
      using px [of "nat y" "nat x"] that y0 x0 by auto
  qed
  have e: "t ! 0 ! nat y ! nat x = [0, 0, 0]"
    if "0 \<le> y" "y < h" "0 \<le> x" "x < w" "h div ?sq * ?sq \<le> y \<or> w div ?sq * ?sq \<le> x" for y x
  proof -
    have "\<not> (y div ?sq < h div ?sq \<and> x div ?sq < w div ?sq)"
    proof
      assume lt: "y div ?sq < h div ?sq \<and> x div ?sq < w div ?sq"
      have "y < (y div ?sq + 1) * ?sq" "x < (x div ?sq + 1) * ?sq"
        using sq int_div_eq_iff [of ?sq y "y div ?sq"] int_div_eq_iff [of ?sq x "x div ?sq"] by auto
      moreover have "(y div ?sq + 1) * ?sq \<le> h div ?sq * ?sq" "(x div ?sq + 1) * ?sq \<le> w div ?sq * ?sq"
        using lt sq by (simp_all add: mult_right_mono)
      ultimately show False using that(5) by auto
    qed
    then show ?thesis
      using px [of "nat y" "nat x"] that by auto
  qed
  show ?thesis
    using t a b l1 l2 c d e by blast
qed

theorem placeholder_is_checkerboard_witness:
  "(16::int) \<le> min 40 33
   \<and> (\<exists>t. placeholder_tensor 40 33 = Inr t \<and> length t = 1 \<and> length (t ! 0) = 40
         \<and> length (t ! 0 ! 0) = 33
         \<and> t ! 0 ! 0 ! 0 = [0, 0, 0] \<and> t ! 0 ! 0 ! 2 = [1, 1, 1] \<and> t ! 0 ! 0 ! 32 = [0, 0, 0])"
proof -
  have h: "(16::int) \<le> min 40 33" by simp
  have sq: "square_size_of 40 33 = 2" by (simp add: square_size_of_def)
  from placeholder_is_checkerboard [OF h] obtain t where
    t: "placeholder_tensor 40 33 = Inr t" "length t = 1" "length (t ! 0) = nat 40"
    and r: "\<forall>y<nat 40. length (t ! 0 ! y) = nat 33
         \<and> (\<forall>x<nat 33. length (t ! 0 ! y ! x) = 3
              \<and> (\<forall>c<3. 0 \<le> t ! 0 ! y ! x ! c \<and> t ! 0 ! y ! x ! c \<le> 1))"
    and g: "\<forall>row col y x.
          0 \<le> row \<and> row < 40 div square_size_of 40 33
          \<and> 0 \<le> col \<and> col < 33 div square_size_of 40 33
          \<and> row * square_size_of 40 33 \<le> y \<and> y < min ((row + 1) * square_size_of 40 33) 40
          \<and> col * square_size_of 40 33 \<le> x \<and> x < min ((col + 1) * square_size_of 40 33) 33
          \<longrightarrow> t ! 0 ! nat y ! nat x = (if (row + col) mod 2 = 0 then [0, 0, 0] else [1, 1, 1])"
    and b: "\<forall>y x. 0 \<le> y \<and> y < 40 \<and> 0 \<le> x \<and> x < 33
          \<and> (40 div square_size_of 40 33 * square_size_of 40 33 \<le> y
              \<or> 33 div square_size_of 40 33 * square_size_of 40 33 \<le> x)
          \<longrightarrow> t ! 0 ! nat y ! nat x = [0, 0, 0]"
    by blast
  have "length (t ! 0 ! 0) = 33" using r by simp
  moreover have "t ! 0 ! 0 ! 0 = [0, 0, 0]"
    using g [rule_format, of 0 0 0 0] by (simp add: sq)
  moreover have "t ! 0 ! 0 ! 2 = [1, 1, 1]"
    using g [rule_format, of 0 1 0 2] by (simp add: sq)
  moreover have "t ! 0 ! 0 ! 32 = [0, 0, 0]"
    using b [rule_format, of 0 32] by (simp add: sq)
  ultimately show ?thesis
    using h t by auto
qed

text \<open>
  The claim as stated fails at height 768 and width 1024: the side is 48, and 21 whole
  squares cover the columns up to 1008. The pixel at row 0, column 1008 belongs to the
  square at grid position \<open>(0, 21)\<close>, which a checkerboard clipped at the right edge
  would paint white (\<open>0 + 21\<close> is odd); the placeholder has it black.
\<close>

theorem placeholder_edge_strip_counterexample:
  "(16::int) \<le> min 768 1024
   \<and> square_size_of 768 1024 = 48
   \<and> (0 + 1008 div square_size_of 768 1024) mod 2 = (1::int)
   \<and> (\<exists>t. placeholder_tensor 768 1024 = Inr t \<and> t ! 0 ! 0 ! 1008 = [0, 0, 0])"
proof -
  have sq: "square_size_of 768 1024 = 48"
    by (simp add: square_size_of_def)
  obtain t where t: "placeholder_tensor 768 1024 = Inr t"
    and px: "\<forall>y<nat 768. length (t ! 0 ! y) = nat 1024
        \<and> (\<forall>x<nat 1024. t ! 0 ! y ! x =
              (if int y div square_size_of 768 1024 < 768 div square_size_of 768 1024
                  \<and> int x div square_size_of 768 1024 < 1024 div square_size_of 768 1024
                  \<and> (int y div square_size_of 768 1024 + int x div square_size_of 768 1024) mod 2 \<noteq> 0
               then [1, 1, 1] else [0, 0, 0]))"
    using placeholder_tensor_result [of 768 1024] by auto
  have "\<forall>x<nat 1024. t ! 0 ! 0 ! x =
              (if int 0 div square_size_of 768 1024 < 768 div square_size_of 768 1024
                  \<and> int x div square_size_of 768 1024 < 1024 div square_size_of 768 1024
                  \<and> (int 0 div square_size_of 768 1024 + int x div square_size_of 768 1024) mod 2 \<noteq> 0
               then [1, 1, 1] else [0, 0, 0])"
    using px [rule_format, of 0] by simp
  from this [rule_format, of 1008] have "t ! 0 ! 0 ! 1008 = [0, 0, 0]"
    by (simp add: sq)
  then show ?thesis
    using t by (simp add: sq)
qed

text \<open>
  C10, as the source has it. The claim says that for every configuration with
  \<open>min h w < 16\<close> the square size is 0 and the creation raises a division by zero. The
  configuration holds any integer, and Python's \<^verbatim>\<open>//\<close> rounds down: for a negative
  minimum the square size is negative, not 0, and the creation has already failed when
  the image is allocated (a \<^verbatim>\<open>ValueError\<close>). So: for \<open>0 \<le> min h w < 16\<close> the square
  size is 0 and the creation raises \<^verbatim>\<open>ZeroDivisionError\<close>; for \<open>min h w < 0\<close> the square
  size is negative and the creation raises \<^verbatim>\<open>ValueError\<close>; in both cases a stream start
  whose parameters are accepted and give these dimensions fails with that error; for
  \<open>16 \<le> min h w\<close> the creation succeeds.
\<close>

theorem placeholder_needs_sixteen:
  "(0 \<le> min h w \<and> min h w < 16 \<longrightarrow>
      square_size_of h w = 0 \<and> placeholder_tensor h w = Inl ZeroDivisionError)
   \<and> (min h w < 0 \<longrightarrow> square_size_of h w < 0 \<and> placeholder_tensor h w = Inl ValueError)
   \<and> (16 \<le> min h w \<longrightarrow> (\<exists>t. placeholder_tensor h w = Inr t))
   \<and> (\<forall>p s c. runner_ready s \<and> update_params p (cfg s) = (c, None)
         \<and> height c = h \<and> width c = w \<and> min h w < 16
         \<longrightarrow> snd (on_start p s) = Some (if min h w < 0 then ValueError else ZeroDivisionError))"
proof (intro conjI impI allI)
  assume "0 \<le> min h w \<and> min h w < 16"
  then show "square_size_of h w = 0" "placeholder_tensor h w = Inl ZeroDivisionError"
    using placeholder_tensor_small [of h w] by auto
next
  assume "min h w < 0"
  then show "square_size_of h w < 0" "placeholder_tensor h w = Inl ValueError"
    using placeholder_tensor_negative [of h w] by auto
next
  assume "16 \<le> min h w"
  then show "\<exists>t. placeholder_tensor h w = Inr t"
    using placeholder_tensor_result [of h w] by auto
next
  fix p :: params and s :: handlers and c :: config
  assume a: "runner_ready s \<and> update_params p (cfg s) = (c, None)
         \<and> height c = h \<and> width c = w \<and> min h w < 16"
  show "snd (on_start p s) = Some (if min h w < 0 then ValueError else ZeroDivisionError)"
  proof (cases "min h w < 0")
    case True
    then show ?thesis
      using a placeholder_tensor_negative(2) [of h w] on_start_placeholder_error [of s p c ValueError]
      by auto
  next
    case False
    then have "0 \<le> min h w" by (simp add: not_less)
    then have "placeholder_tensor h w = Inl ZeroDivisionError"
      using a placeholder_tensor_small(2) [of h w] by blast
    then show ?thesis
      using a False on_start_placeholder_error [of s p c ZeroDivisionError] by auto
  qed
qed

theorem placeholder_needs_sixteen_witness:
  "(0::int) \<le> min 5 100 \<and> min 5 100 < (16::int)
   \<and> square_size_of 5 100 = 0 \<and> placeholder_tensor 5 100 = Inl ZeroDivisionError
   \<and> min (- 5) 100 < (0::int) \<and> placeholder_tensor (- 5) 100 = Inl ValueError
   \<and> (16::int) \<le> min 16 16 \<and> (\<exists>t. placeholder_tensor 16 16 = Inr t)
   \<and> runner_ready (init_handlers\<lparr>runner_ready := True\<rparr>)
   \<and> update_params [(''height'', PInt 5), (''width'', PInt 100)]
        (cfg (init_handlers\<lparr>runner_ready := True\<rparr>))
       = (default_config\<lparr>height := 5, width := 100\<rparr>, None)
   \<and> snd (on_start [(''height'', PInt 5), (''width'', PInt 100)]
        (init_handlers\<lparr>runner_ready := True\<rparr>)) = Some ZeroDivisionError"
proof -
  have u: "update_params [(''height'', PInt 5), (''width'', PInt 100)]
        (cfg (init_handlers\<lparr>runner_ready := True\<rparr>))
       = (default_config\<lparr>height := 5, width := 100\<rparr>, None)"
    by code_simp
  have r: "runner_ready (init_handlers\<lparr>runner_ready := True\<rparr>)" by simp
  have "snd (on_start [(''height'', PInt 5), (''width'', PInt 100)]
        (init_handlers\<lparr>runner_ready := True\<rparr>)) = Some ZeroDivisionError"
    using placeholder_needs_sixteen [of 5 100, THEN conjunct2, THEN conjunct2, THEN conjunct2,
        rule_format, of "init_handlers\<lparr>runner_ready := True\<rparr>"
          "[(''height'', PInt 5), (''width'', PInt 100)]" "default_config\<lparr>height := 5, width := 100\<rparr>"]
      u r by simp
  then show ?thesis
    using placeholder_needs_sixteen [of 5 100] placeholder_needs_sixteen [of "- 5" 100]
      placeholder_needs_sixteen [of 16 16] u r by simp
qed

text \<open>
  The claim as stated fails at height \<open>-5\<close> and width 100: the minimum is below 16, the
  square size is \<open>-1\<close> and the error is not a division by zero.
\<close>

theorem placeholder_negative_size_counterexample:
  "min (- 5) 100 < (16::int)
   \<and> square_size_of (- 5) 100 = - 1
   \<and> square_size_of (- 5) 100 \<noteq> 0
   \<and> placeholder_tensor (- 5) 100 = Inl ValueError
   \<and> placeholder_tensor (- 5) 100 \<noteq> Inl ZeroDivisionError"
  by (simp add: square_size_of_def placeholder_tensor_def placeholder_image_def image_new_def)

section \<open>The synthesis loop\<close>

lemma concurrently_keeps:
  "current_frame (concurrently evs s) = current_frame s"
  "frame_timestamp (concurrently evs s) = frame_timestamp s"
  "timestamp_increment (concurrently evs s) = timestamp_increment s"
  "processor (concurrently evs s) = processor s"
  "no_audio_in_stream (concurrently evs s) = no_audio_in_stream s"
  by (induction evs s rule: concurrently.induct) simp_all

lemma concurrently_cfg:
  "cfg s = cfg s' \<Longrightarrow> cfg (concurrently evs s) = cfg (concurrently evs s')"
proof (induction evs s arbitrary: s' rule: concurrently.induct)
  case (1 s)
  then show ?case by simp
next
  case (2 p evs s)
  show ?case
    using "2.IH" [of "s'\<lparr>cfg := fst (update_params p (cfg s'))\<rparr>"] "2.prems" by simp
next
  case (3 evs s)
  show ?case
    using "3.IH" [of "s'\<lparr>interrupt_requested := True\<rparr>"] "3.prems" by simp
qed

lemma concurrently_append:
  "concurrently (evs @ evs') s = concurrently evs' (concurrently evs s)"
  by (induction evs s rule: concurrently.induct) simp_all

lemma inference_cfg:
  "cfg (snd (run_inference_with_callback eng during s)) = cfg (concurrently during s)"
  using concurrently_cfg [of "snd (inference_begin s)" s during]
  by (simp add: run_inference_with_callback_def inference_begin_def inference_run_def Let_def)

lemma inference_current_frame:
  "current_frame (snd (run_inference_with_callback eng during s)) = current_frame s"
  by (simp add: run_inference_with_callback_def inference_begin_def inference_run_def Let_def
      concurrently_keeps)

text \<open>
  The configuration when the generator resumes: that of the start of the iteration, with
  the updates served meanwhile.
\<close>

lemma resumed_cfg:
  "cfg (concurrently after (snd (run_inference_with_callback eng during
          (s\<lparr>interrupt_requested := False\<rparr>))))
     = cfg (concurrently (during @ after) s)"
proof -
  have "cfg (snd (run_inference_with_callback eng during (s\<lparr>interrupt_requested := False\<rparr>)))
      = cfg (concurrently during s)"
    using inference_cfg [of eng during "s\<lparr>interrupt_requested := False\<rparr>"]
      concurrently_cfg [of "s\<lparr>interrupt_requested := False\<rparr>" s during]
    by simp
  then show ?thesis
    using concurrently_cfg [of "snd (run_inference_with_callback eng during
          (s\<lparr>interrupt_requested := False\<rparr>))" "concurrently during s" after]
    by (simp add: concurrently_append)
qed

text \<open>
  An attempt that raises leaves the current frame as it was, and the configuration as the
  updates served meanwhile left it.
\<close>

lemma generate_iteration_failed:
  assumes "fst (generate_iteration eng during after s) = Inl e"
  shows "current_frame (snd (generate_iteration eng during after s)) = current_frame s"
    and "cfg (snd (generate_iteration eng during after s)) = cfg (concurrently (during @ after) s)"
  using assms inference_current_frame [of eng during "s\<lparr>interrupt_requested := False\<rparr>"]
    resumed_cfg [of after eng during s]
  by (auto simp: generate_iteration_def Let_def concurrently_keeps split: prod.splits sum.splits)

text \<open>
  An attempt that returns an image publishes it, and adjusts the seed of the configuration
  as it is when the generator resumes.
\<close>

lemma generate_iteration_succeeded:
  assumes "fst (generate_iteration eng during after s) = Inr img"
  shows "current_frame (snd (generate_iteration eng during after s)) = Some (pil_to_bhwc img)"
    and "cfg (snd (generate_iteration eng during after s))
      = adjust_seed (entropy eng) (cfg (concurrently (during @ after) s))"
  using assms resumed_cfg [of after eng during s]
  by (auto simp: generate_iteration_def Let_def split: prod.splits sum.splits)

text \<open>
  The attempt returns an image exactly when the call of the pipeline does (and the
  enhancement before it, when it is on): whether an interrupt was requested plays no part.
\<close>

lemma generate_iteration_outcome:
  "fst (generate_iteration eng during after s) = Inr img \<longleftrightarrow>
     fst (inference_run eng (cfg s)
            (concurrently during (snd (inference_begin (s\<lparr>interrupt_requested := False\<rparr>)))))
       = Inr img"
  by (auto simp: generate_iteration_def run_inference_with_callback_def inference_begin_def
      Let_def split: prod.splits sum.splits)

lemma inference_run_returns:
  "fst (inference_run eng c s) = Inr img \<longleftrightarrow>
     (if enhance_prompt c
      then \<exists>p. enhance_prompt_text eng s (prompt c) = Inr p
             \<and> pipe eng
                 \<lparr>generator_seed = seed c, image_arg = processed_reference_images c,
                  call_height = height c, call_width = width c, call_prompt = PStr p,
                  call_guidance_scale = guidance_scale c, num_inference_steps = steps c\<rparr>
                 (interrupt_requested s) = Inr img
      else pipe eng
             \<lparr>generator_seed = seed c, image_arg = processed_reference_images c,
              call_height = height c, call_width = width c, call_prompt = prompt c,
              call_guidance_scale = guidance_scale c, num_inference_steps = steps c\<rparr>
             (interrupt_requested s) = Inr img)"
  by (auto simp: inference_run_def interrupt_callback_def Let_def map_sum_id_Inr map_sum_id_Inl
      split: sum.splits)

lemma send_frame_current_frame: "current_frame (snd (send_frame silence s)) = current_frame s"
  by (simp add: send_frame_def Let_def)

text \<open>
  In every session the current frame ends as the tensor of the image of the last attempt
  that returned one, and as what it was before when no attempt did.
\<close>

lemma frame_after_session:
  "current_frame (snd (snd (session silence acts s))) =
     (if successes (fst (snd (session silence acts s))) = [] then current_frame s
      else Some (pil_to_bhwc (last (successes (fst (snd (session silence acts s)))))))"
proof (induction silence acts s rule: session.induct)
  case (1 silence s)
  then show ?case by simp
next
  case (2 silence as s)
  obtain out s1 where sf: "send_frame silence s = (out, s1)" by (cases "send_frame silence s")
  obtain outs rs s2 where rest: "session silence as s1 = (outs, rs, s2)"
    by (cases "session silence as s1")
  have "current_frame s1 = current_frame s"
    using send_frame_current_frame [of silence s] sf by simp
  then show ?case
    using "2.IH" [OF sf [symmetric]] sf rest by simp
next
  case (3 silence eng during after as s)
  show ?case
  proof (cases "processor s")
    case False
    then show ?thesis using "3.IH"(2) by simp
  next
    case True
    obtain r s1 where it: "generate_iteration eng during after s = (r, s1)"
      by (cases "generate_iteration eng during after s")
    obtain outs rs s2 where rest: "session silence as s1 = (outs, rs, s2)"
      by (cases "session silence as s1")
    have ih: "current_frame s2 =
       (if successes rs = [] then current_frame s1 else Some (pil_to_bhwc (last (successes rs))))"
      using "3.IH"(1) [OF True it [symmetric]] rest by simp
    show ?thesis
    proof (cases r)
      case (Inl e)
      then have "current_frame s1 = current_frame s"
        using generate_iteration_failed(1) [of eng during after s e] it by simp
      then show ?thesis using True it rest ih Inl by simp
    next
      case (Inr img)
      then have "current_frame s1 = Some (pil_to_bhwc img)"
        using generate_iteration_succeeded(1) [of eng during after s img] it by simp
      then show ?thesis using True it rest ih Inr by simp
    qed
  qed
next
  case (4 silence p as s)
  then show ?case by simp
qed

text \<open>With no processor attached the loop ends at its head, before any job.\<close>

lemma generate_images_without_processor:
  "\<not> processor s \<Longrightarrow> generate_images_for_video (it # its) s = ([], s, Some AttributeError)"
  by simp

lemma generate_images_stop_event:
  "processor s \<Longrightarrow> stop_event_set it \<Longrightarrow> generate_images_for_video (it # its) s = ([], s, None)"
  by simp

text \<open>
  C3. The claim says that an interrupted attempt leaves the current frame unchanged.
  \<^verbatim>\<open>_run_inference_with_callback\<close> reports an interruption only from its
  \<^verbatim>\<open>except\<close> clause, when the call of the pipeline raises; the interrupt callback sets
  \<^verbatim>\<open>pipeline._interrupt\<close> and returns, and neither the method nor the generator looks
  at the interrupt flag once the call has returned. Below: a stream starts with the
  default configuration; the pipeline returns the finished image (white) when it is left
  alone and, on an interrupt, the unfinished image it has (grey); the first job completes
  and the current frame holds its image; during the second job a stream stop arrives and
  sets the interrupt flag; the callback finds it set; the pipeline returns; the generator
  resumes, and the current frame holds the unfinished image of the interrupted job, not
  the image of the first. An attempt that raises does leave the frame unchanged
  (\<open>generate_iteration_failed\<close>, \<open>frame_after_session\<close>).
\<close>

theorem interrupted_job_is_published:
  "let H = init_handlers\<lparr>runner_ready := True, processor := True\<rparr>;
       E = \<lparr>text_encoder = (\<lambda>g d q. Inr []),
            pipe = (\<lambda>c interrupted. Inr (if interrupted
                      then \<lparr>im_width = 1, im_height = 1, im_pixels = [[(51, 51, 51)]]\<rparr>
                      else \<lparr>im_width = 1, im_height = 1, im_pixels = [[(255, 255, 255)]]\<rparr>)),
            pipe_has_interrupt = True, entropy = 0\<rparr>;
       S0 = fst (on_start [] H);
       S1 = snd (generate_iteration E [] [] S0);
       S2 = snd (generate_iteration E [StopArrives] [] S1)
   in snd (on_start [] H) = None
      \<and> fst (generate_iteration E [] [] S0)
          = Inr \<lparr>im_width = 1, im_height = 1, im_pixels = [[(255, 255, 255)]]\<rparr>
      \<and> current_frame S1 = Some [[[[1, 1, 1]]]]
      \<and> interrupt_callback
          (concurrently [StopArrives] (snd (inference_begin (S1\<lparr>interrupt_requested := False\<rparr>))))
      \<and> fst (generate_iteration E [StopArrives] [] S1)
          = Inr \<lparr>im_width = 1, im_height = 1, im_pixels = [[(51, 51, 51)]]\<rparr>
      \<and> current_frame S2 = Some [[[[1 / 5, 1 / 5, 1 / 5]]]]"
proof -
  define H where "H = init_handlers\<lparr>runner_ready := True, processor := True\<rparr>"
  define E where "E =
           \<lparr>text_encoder = (\<lambda>g d q. Inr []),
            pipe = (\<lambda>c interrupted. Inr (if interrupted
                      then \<lparr>im_width = 1, im_height = 1, im_pixels = [[(51, 51, 51)]]\<rparr>
                      else \<lparr>im_width = 1, im_height = 1, im_pixels = [[(255, 255, 255)]]\<rparr>)),
            pipe_has_interrupt = True, entropy = 0 :: nat\<rparr>"
  define S0 where "S0 = fst (on_start [] H)"
  define S1 where "S1 = snd (generate_iteration E [] [] S0)"
  define S2 where "S2 = snd (generate_iteration E [StopArrives] [] S1)"
  have u: "update_params [] (cfg H) = (default_config, None)"
    unfolding H_def by code_simp
  have r: "snd (on_start [] H) = None"
    by (rule on_start_returns [OF _ u]) (simp_all add: H_def init_handlers_def default_config_def)
  then have "on_start [] H = (S0, None)"
    unfolding S0_def by (metis prod.collapse)
  then have "update_params [] (cfg H) = (cfg S0, None)"
    by (rule on_start_result(2))
  then have "cfg S0 = default_config"
    using u by simp
  then have c0: "enhance_prompt (cfg S0) = False"
    by (simp add: default_config_def)
  have j1: "fst (generate_iteration E [] [] S0)
      = Inr \<lparr>im_width = 1, im_height = 1, im_pixels = [[(255, 255, 255)]]\<rparr>"
    using c0
    by (simp add: generate_iteration_def run_inference_with_callback_def inference_begin_def
        inference_run_def interrupt_callback_def Let_def E_def)
  have f1: "current_frame S1 = Some [[[[1, 1, 1]]]]"
    using generate_iteration_succeeded(1) [OF j1]
    by (simp add: S1_def pil_to_bhwc_def pil_to_tensor_def permute_1_2_0_def unsqueeze_0_def
        channel_def)
  have "cfg S1 = adjust_seed (entropy E) (cfg S0)"
    using generate_iteration_succeeded(2) [OF j1] by (simp add: S1_def)
  then have c1: "enhance_prompt (cfg S1) = False"
    using c0 by (simp add: adjust_seed_def)
  have i: "interrupt_callback
      (concurrently [StopArrives] (snd (inference_begin (S1\<lparr>interrupt_requested := False\<rparr>))))"
    by (simp add: interrupt_callback_def inference_begin_def Let_def)
  have j2: "fst (generate_iteration E [StopArrives] [] S1)
      = Inr \<lparr>im_width = 1, im_height = 1, im_pixels = [[(51, 51, 51)]]\<rparr>"
    using c1
    by (simp add: generate_iteration_def run_inference_with_callback_def inference_begin_def
        inference_run_def interrupt_callback_def Let_def E_def)
  have f2: "current_frame S2 = Some [[[[1 / 5, 1 / 5, 1 / 5]]]]"
    using generate_iteration_succeeded(1) [OF j2]
    by (simp add: S2_def pil_to_bhwc_def pil_to_tensor_def permute_1_2_0_def unsqueeze_0_def
        channel_def)
  show ?thesis
    using r j1 f1 i j2 f2
    unfolding Let_def H_def E_def S0_def S1_def S2_def by blast
qed

lemma py_randint_range:
  assumes "a \<le> b"
  shows "a \<le> py_randint a b e \<and> py_randint a b e \<le> b"
proof -
  have p: "0 < b - a + 1" using assms by simp
  have "0 \<le> int e mod (b - a + 1)" by (rule pos_mod_sign [OF p])
  moreover have "int e mod (b - a + 1) < b - a + 1" by (rule pos_mod_bound [OF p])
  ultimately show ?thesis unfolding py_randint_def by linarith
qed

lemma py_randint_full: "range (py_randint 0 (2 ^ 32 - 1)) = {0..2 ^ 32 - 1}"
proof
  show "range (py_randint 0 (2 ^ 32 - 1)) \<subseteq> {0..2 ^ 32 - 1}"
    using py_randint_range [of 0 "2 ^ 32 - 1"] by auto
  show "{0..2 ^ 32 - 1} \<subseteq> range (py_randint 0 (2 ^ 32 - 1))"
  proof
    fix v :: int assume "v \<in> {0..2 ^ 32 - 1}"
    then have "py_randint 0 (2 ^ 32 - 1) (nat v) = v"
      by (simp add: py_randint_def)
    then show "v \<in> range (py_randint 0 (2 ^ 32 - 1))"
      by (metis rangeI)
  qed
qed

text \<open>
  The seed after an attempt that returned an image, from the configuration \<open>c\<close> the
  generator finds when it resumes: the policy and the seed are those of \<open>c\<close>, and nothing
  but the seed changes.
\<close>

lemma adjust_seed_policy:
  "adjust_seed e c = c\<lparr>seed := seed (adjust_seed e c)\<rparr>"
  "seed (adjust_seed e c) =
     (if seed_adjustment c = PStr ''increment'' then seed c + 1
      else if seed_adjustment c = PStr ''decrement'' then seed c - 1
      else if seed_adjustment c = PStr ''random'' then py_randint 0 (2 ^ 32 - 1) e
      else seed c)"
  "0 \<le> py_randint 0 (2 ^ 32 - 1) e" "py_randint 0 (2 ^ 32 - 1) e \<le> 2 ^ 32 - 1"
  using py_randint_range [of 0 "2 ^ 32 - 1" e] by (simp_all add: adjust_seed_def)

text \<open>
  C4. The claim says that an interrupted attempt never changes the seed. The seed update
  follows \<^verbatim>\<open>await asyncio.to_thread(self._run_inference_with_callback)\<close> and runs
  whenever that call returns an image; an interrupt that the pipeline answers by returning
  is not told apart from a completed job. Below: a stream starts with the default
  configuration, seed 42 and policy \<^verbatim>\<open>increment\<close>; the first job completes and the
  seed is 43; during the second job a stream stop arrives and sets the interrupt flag;
  the callback finds it set; the pipeline returns the unfinished image; the generator
  resumes, and the seed is 44. An attempt that raises leaves the seed alone
  (\<open>generate_iteration_failed\<close>), and after an attempt that returns the seed follows the
  policy, read from the configuration as it is then (\<open>generate_iteration_succeeded\<close>,
  \<open>adjust_seed_policy\<close>).
\<close>

theorem interrupted_job_advances_seed:
  "let H = init_handlers\<lparr>runner_ready := True, processor := True\<rparr>;
       E = \<lparr>text_encoder = (\<lambda>g d q. Inr []),
            pipe = (\<lambda>c interrupted. Inr (if interrupted
                      then \<lparr>im_width = 1, im_height = 1, im_pixels = [[(51, 51, 51)]]\<rparr>
                      else \<lparr>im_width = 1, im_height = 1, im_pixels = [[(255, 255, 255)]]\<rparr>)),
            pipe_has_interrupt = True, entropy = 0\<rparr>;
       S0 = fst (on_start [] H);
       S1 = snd (generate_iteration E [] [] S0);
       S2 = snd (generate_iteration E [StopArrives] [] S1)
   in snd (on_start [] H) = None
      \<and> seed (cfg S0) = 42 \<and> seed_adjustment (cfg S0) = PStr ''increment''
      \<and> fst (generate_iteration E [] [] S0)
          = Inr \<lparr>im_width = 1, im_height = 1, im_pixels = [[(255, 255, 255)]]\<rparr>
      \<and> seed (cfg S1) = 43
      \<and> interrupt_requested
          (concurrently [StopArrives] (snd (inference_begin (S1\<lparr>interrupt_requested := False\<rparr>))))
      \<and> fst (generate_iteration E [StopArrives] [] S1)
          = Inr \<lparr>im_width = 1, im_height = 1, im_pixels = [[(51, 51, 51)]]\<rparr>
      \<and> seed (cfg S2) = 44"
proof -
  define H where "H = init_handlers\<lparr>runner_ready := True, processor := True\<rparr>"
  define E where "E =
           \<lparr>text_encoder = (\<lambda>g d q. Inr []),
            pipe = (\<lambda>c interrupted. Inr (if interrupted
                      then \<lparr>im_width = 1, im_height = 1, im_pixels = [[(51, 51, 51)]]\<rparr>
                      else \<lparr>im_width = 1, im_height = 1, im_pixels = [[(255, 255, 255)]]\<rparr>)),
            pipe_has_interrupt = True, entropy = 0 :: nat\<rparr>"
  define S0 where "S0 = fst (on_start [] H)"
  define S1 where "S1 = snd (generate_iteration E [] [] S0)"
  define S2 where "S2 = snd (generate_iteration E [StopArrives] [] S1)"
  have u: "update_params [] (cfg H) = (default_config, None)"
    unfolding H_def by code_simp
  have r: "snd (on_start [] H) = None"
    by (rule on_start_returns [OF _ u]) (simp_all add: H_def init_handlers_def default_config_def)
  then have "on_start [] H = (S0, None)"
    unfolding S0_def by (metis prod.collapse)
  then have "update_params [] (cfg H) = (cfg S0, None)"
    by (rule on_start_result(2))
  then have c0: "cfg S0 = default_config"
    using u by simp
  have j1: "fst (generate_iteration E [] [] S0)
      = Inr \<lparr>im_width = 1, im_height = 1, im_pixels = [[(255, 255, 255)]]\<rparr>"
    using c0
    by (simp add: generate_iteration_def run_inference_with_callback_def inference_begin_def
        inference_run_def interrupt_callback_def Let_def E_def default_config_def)
  have c1: "cfg S1 = default_config\<lparr>seed := 43\<rparr>"
    using generate_iteration_succeeded(2) [OF j1] c0
    by (simp add: S1_def adjust_seed_def default_config_def)
  have i: "interrupt_requested
      (concurrently [StopArrives] (snd (inference_begin (S1\<lparr>interrupt_requested := False\<rparr>))))"
    by (simp add: inference_begin_def Let_def)
  have j2: "fst (generate_iteration E [StopArrives] [] S1)
      = Inr \<lparr>im_width = 1, im_height = 1, im_pixels = [[(51, 51, 51)]]\<rparr>"
    using c1
    by (simp add: generate_iteration_def run_inference_with_callback_def inference_begin_def
        inference_run_def interrupt_callback_def Let_def E_def default_config_def)
  have "cfg S2 = adjust_seed (entropy E) (cfg (concurrently [StopArrives] S1))"
    using generate_iteration_succeeded(2) [OF j2] by (simp add: S2_def)
  then have c2: "seed (cfg S2) = 44"
    using c1 by (simp add: adjust_seed_def default_config_def)
  have s0: "seed (cfg S0) = 42" "seed_adjustment (cfg S0) = PStr ''increment''"
    using c0 by (simp_all add: default_config_def)
  have s1: "seed (cfg S1) = 43"
    using c1 by simp
  show ?thesis
    using r s0 j1 s1 i j2 c2
    unfolding Let_def H_def E_def S0_def S1_def S2_def by blast
qed

section \<open>The emission cadence\<close>

lemma generate_iteration_timing:
  "frame_timestamp (snd (generate_iteration eng during after s)) = frame_timestamp s"
  "timestamp_increment (snd (generate_iteration eng during after s)) = timestamp_increment s"
  "processor (snd (generate_iteration eng during after s)) = processor s"
  "no_audio_in_stream (snd (generate_iteration eng during after s)) = no_audio_in_stream s"
  by (auto simp: generate_iteration_def run_inference_with_callback_def inference_begin_def
      inference_run_def Let_def concurrently_keeps split: prod.splits sum.splits)

lemma send_frame_timing:
  "frame_timestamp (snd (send_frame silence s)) = frame_timestamp s + timestamp_increment s"
  "timestamp_increment (snd (send_frame silence s)) = timestamp_increment s"
  "processor (snd (send_frame silence s)) = processor s"
  "no_audio_in_stream (snd (send_frame silence s)) = no_audio_in_stream s"
  by (auto simp: send_frame_def Let_def)

lemma send_frame_emits:
  "processor s \<Longrightarrow>
   fst (send_frame silence s) =
     (if no_audio_in_stream s
      then [VideoFrame (current_frame s) (frame_timestamp s) (time_base_frac s),
            AudioFrame silence (frame_timestamp s) (time_base_frac s) ''fltp'' ''stereo'']
      else [VideoFrame (current_frame s) (frame_timestamp s) (time_base_frac s)])"
  by (simp add: send_frame_def Let_def)

lemma session_timestamps:
  "processor s \<Longrightarrow>
   video_timestamps (fst (session silence acts s)) =
     map (\<lambda>k. frame_timestamp s + int k * timestamp_increment s) [0..<sender_passes acts]
   \<and> (no_audio_in_stream s \<longrightarrow> audio_follows_video silence (fst (session silence acts s)))"
proof (induction silence acts s rule: session.induct)
  case (1 silence s)
  then show ?case by simp
next
  case (2 silence as s)
  obtain out s1 where sf: "send_frame silence s = (out, s1)" by (cases "send_frame silence s")
  obtain outs rs s2 where rest: "session silence as s1 = (outs, rs, s2)"
    by (cases "session silence as s1")
  have s1: "processor s1" "no_audio_in_stream s1 = no_audio_in_stream s"
    "frame_timestamp s1 = frame_timestamp s + timestamp_increment s"
    "timestamp_increment s1 = timestamp_increment s"
    using send_frame_timing [of silence s] sf 2(2) by auto
  have out: "out =
     (if no_audio_in_stream s
      then [VideoFrame (current_frame s) (frame_timestamp s) (time_base_frac s),
            AudioFrame silence (frame_timestamp s) (time_base_frac s) ''fltp'' ''stereo'']
      else [VideoFrame (current_frame s) (frame_timestamp s) (time_base_frac s)])"
    using send_frame_emits [OF 2(2), of silence] sf by simp
  have ih: "video_timestamps outs =
     map (\<lambda>k. frame_timestamp s1 + int k * timestamp_increment s1) [0..<sender_passes as]"
    "no_audio_in_stream s \<longrightarrow> audio_follows_video silence outs"
    using "2.IH" [OF sf [symmetric] s1(1)] rest s1(2) by auto
  have "map (\<lambda>k. frame_timestamp s + int k * timestamp_increment s) [0..<Suc (sender_passes as)]
      = frame_timestamp s # map (\<lambda>k. frame_timestamp s1 + int k * timestamp_increment s1) [0..<sender_passes as]"
    by (simp add: upt_conv_Cons map_Suc_upt [symmetric] s1 algebra_simps del: upt_Suc)
  then show ?case
    using sf rest out ih by simp
next
  case (3 silence eng during after as s)
  obtain r s1 where it: "generate_iteration eng during after s = (r, s1)"
    by (cases "generate_iteration eng during after s")
  obtain outs rs s2 where rest: "session silence as s1 = (outs, rs, s2)"
    by (cases "session silence as s1")
  have "processor s1" "no_audio_in_stream s1 = no_audio_in_stream s"
    "frame_timestamp s1 = frame_timestamp s"
    "timestamp_increment s1 = timestamp_increment s"
    using generate_iteration_timing [of eng during after s] it "3.prems" by auto
  then show ?case
    using "3.IH"(1) [OF "3.prems" it [symmetric]] "3.prems" it rest by simp
next
  case (4 silence p as s)
  then show ?case by simp
qed

lemma send_frames_loop_is_session:
  "send_frames_loop silence (replicate n Proceed) s =
     (fst (session silence (replicate n SenderPass) s),
      snd (snd (session silence (replicate n SenderPass) s)), None)"
proof (induction n arbitrary: s)
  case 0
  then show ?case by simp
next
  case (Suc n)
  obtain out s1 where sf: "send_frame silence s = (out, s1)" by (cases "send_frame silence s")
  obtain a b c where r: "session silence (replicate n SenderPass) s1 = (a, b, c)"
    by (cases "session silence (replicate n SenderPass) s1")
  show ?case using Suc [of s1] sf r by simp
qed

lemma silent_audio_tensor_16:
  "fps s = 16 \<Longrightarrow> silent_audio_tensor s = Inr (replicate 2 (replicate 3000 0))"
  by (simp add: silent_audio_tensor_def py_trunc_def Let_def)

text \<open>
  C8. After a stream start that succeeds, with the time base 90000 and the target rate
  16 that \<^verbatim>\<open>__init__\<close> sets and a processor attached: whatever the generator does
  between the passes of the sender and however long it takes (any interleaving of
  iterations and parameter updates), the video frames emitted carry the timestamps
  \<open>0, 5625, 11250, \<dots>\<close>, one step of \<open>90000 div 16 = 5625\<close> per pass; and when the
  stream has no audio of its own, every video frame is followed at once by a silent audio
  frame with the same timestamp and time base. The same holds for \<open>n\<close> passes of the
  loop \<^verbatim>\<open>_send_frames\<close> itself, whose silent audio is two channels of 3000 zero
  samples.
\<close>

theorem emission_timestamps_arithmetic:
  assumes "on_start p s0 = (s, None)" and "time_base s0 = 90000" and "fps s0 = 16"
    and "processor s0"
  shows "video_timestamps (fst (session silence acts s)) =
        map (\<lambda>k. int k * 5625) [0..<sender_passes acts]
    \<and> (no_audio_in_stream s0 \<longrightarrow> audio_follows_video silence (fst (session silence acts s)))
    \<and> video_timestamps (fst (send_frames (replicate n Proceed) s)) =
        map (\<lambda>k. int k * 5625) [0..<n]
    \<and> (no_audio_in_stream s0 \<longrightarrow>
         audio_follows_video (replicate 2 (replicate 3000 0))
           (fst (send_frames (replicate n Proceed) s)))
    \<and> snd (snd (send_frames (replicate n Proceed) s)) = None
    \<and> timestamp_increment s = time_base s0 div fps s0"
proof -
  have s: "processor s" "no_audio_in_stream s = no_audio_in_stream s0" "frame_timestamp s = 0"
    "timestamp_increment s = 5625" "timestamp_increment s = time_base s0 div fps s0"
    "fps s = 16"
    using on_start_result(5-9) [OF assms(1)] assms(2-4) by simp_all
  have n: "sender_passes (replicate n SenderPass) = n"
    by (induction n) simp_all
  have l: "send_frames (replicate n Proceed) s =
     send_frames_loop (replicate 2 (replicate 3000 0)) (replicate n Proceed) s"
    using silent_audio_tensor_16 [OF s(6)] by (simp add: send_frames_def)
  show ?thesis
    using session_timestamps [OF s(1), of silence acts]
      session_timestamps [OF s(1), of "replicate 2 (replicate 3000 0)" "replicate n SenderPass"]
      s(2,3,4,5)
    by (simp add: l send_frames_loop_is_session n)
qed

theorem emission_timestamps_arithmetic_witness:
  "time_base (init_handlers\<lparr>runner_ready := True, processor := True\<rparr>) = 90000
   \<and> fps (init_handlers\<lparr>runner_ready := True, processor := True\<rparr>) = 16
   \<and> processor (init_handlers\<lparr>runner_ready := True, processor := True\<rparr>)
   \<and> no_audio_in_stream (init_handlers\<lparr>runner_ready := True, processor := True\<rparr>)
   \<and> snd (on_start [] (init_handlers\<lparr>runner_ready := True, processor := True\<rparr>)) = None
   \<and> video_timestamps (fst (session []
        [SenderPass,
         GeneratorIteration \<lparr>text_encoder = (\<lambda>g d q. Inr []), pipe = (\<lambda>c i. Inl ''out of memory''),
           pipe_has_interrupt = False, entropy = 0\<rparr> [] [],
         SenderPass, ParameterUpdate [(''seed'', PInt 7)], SenderPass]
        (fst (on_start [] (init_handlers\<lparr>runner_ready := True, processor := True\<rparr>)))))
     = [0, 5625, 11250]
   \<and> video_timestamps (fst (send_frames [Proceed, Proceed]
        (fst (on_start [] (init_handlers\<lparr>runner_ready := True, processor := True\<rparr>)))))
     = [0, 5625]"
proof -
  let ?s0 = "init_handlers\<lparr>runner_ready := True, processor := True\<rparr>"
  have u: "update_params [] (cfg ?s0) = (default_config, None)"
    by code_simp
  have r: "snd (on_start [] ?s0) = None"
    by (rule on_start_returns [OF _ u]) (simp_all add: init_handlers_def default_config_def)
  then have h: "on_start [] ?s0 = (fst (on_start [] ?s0), None)"
    by (metis prod.collapse)
  have a: "time_base ?s0 = 90000" "fps ?s0 = 16" "processor ?s0"
    by (simp_all add: init_handlers_def)
  have na: "no_audio_in_stream ?s0"
    by (simp add: init_handlers_def)
  have m: "map (\<lambda>k. int k * 5625) [0..<3] = [0, 5625, 11250]"
    "map (\<lambda>k. int k * 5625) [0..<2] = [0, 5625]"
    by (simp_all add: upt_rec)
  have e: "replicate 2 Proceed = [Proceed, Proceed]"
    by (simp add: numeral_2_eq_2)
  show ?thesis
    using emission_timestamps_arithmetic [OF h a, of "[]"
        "[SenderPass,
         GeneratorIteration \<lparr>text_encoder = (\<lambda>g d q. Inr []), pipe = (\<lambda>c i. Inl ''out of memory''),
           pipe_has_interrupt = False, entropy = 0\<rparr> [] [],
         SenderPass, ParameterUpdate [(''seed'', PInt 7)], SenderPass]" 2] a na r m e
    by simp
qed

section \<open>Stopping a stream\<close>

lemma cancel_task_length: "length (cancel_task i ts) = length ts"
  by (simp add: cancel_task_def)

lemma fold_cancel_length: "length (fold cancel_task is ts) = length ts"
  by (induction "is" arbitrary: ts) (simp_all add: cancel_task_length)

lemma cancel_task_not_running:
  "j < length ts \<Longrightarrow> snd (ts ! j) \<noteq> Running \<Longrightarrow> snd (cancel_task i ts ! j) \<noteq> Running"
  by (auto simp: cancel_task_def nth_list_update)

lemma fold_cancel_not_running:
  "j < length ts \<Longrightarrow> snd (ts ! j) \<noteq> Running \<Longrightarrow> snd (fold cancel_task is ts ! j) \<noteq> Running"
  by (induction "is" arbitrary: ts) (simp_all add: cancel_task_length cancel_task_not_running)

lemma fold_cancel_cancels:
  "j \<in> set is \<Longrightarrow> j < length ts \<Longrightarrow> snd (fold cancel_task is ts ! j) \<noteq> Running"
proof (induction "is" arbitrary: ts)
  case Nil
  then show ?case by simp
next
  case (Cons i "is")
  show ?case
  proof (cases "j = i")
    case True
    have "snd (cancel_task i ts ! j) \<noteq> Running"
      using True Cons.prems(2) by (auto simp: cancel_task_def)
    then show ?thesis
      using fold_cancel_not_running [of j "cancel_task i ts" "is"] Cons.prems(2)
      by (simp add: cancel_task_length)
  next
    case False
    then show ?thesis
      using Cons by (simp add: cancel_task_length)
  qed
qed

lemma drain_empty: "drain q = []"
  by (induction q) simp_all

lemma wait_for_result:
  "fst (wait_for d t) = Inr () \<or> fst (wait_for d t) = Inl TimeoutError"
  "snd (wait_for d t) \<le> t"
  by (auto simp: wait_for_def split: option.splits)

lemma on_stop_state:
  "raised (on_stop d s) = None"
  "stopped (on_stop d s) =
     s\<lparr>interrupt_requested := True, frame_queue := [],
       tasks := fold cancel_task (background_tasks s) (tasks s),
       background_tasks := [], background_task_started := False\<rparr>"
  "waited (on_stop d s) = (if inference_in_progress s then snd (wait_for d 20) else 0)"
  "warnings (on_stop d s) =
     (if inference_in_progress s \<and> fst (wait_for d 20) = Inl TimeoutError
      then [''Inference did not complete within 20 seconds, proceeding anyway''] else [])"
  using wait_for_result(1) [of d 20]
  by (auto simp: on_stop_def Let_def drain_empty split: sum.splits)

text \<open>
  C5. \<^verbatim>\<open>on_stop\<close>, for every state and every behaviour \<open>d\<close> of the completion event
  (set after some time, or never): it raises nothing; it sets the interrupt flag; it waits
  only when an inference is in progress, and then for the time the event takes when that
  is below 20 and for 20 otherwise, so never more than 20; a wait that timed out is
  logged as a warning and the teardown goes on; the frame queue is empty afterwards, no
  task of \<open>background_tasks\<close> is still running, the list is cleared and
  \<open>background_task_started\<close> is reset. Calling it again changes nothing and raises
  nothing, and on the state of a handler that never started a stream it only sets the
  interrupt flag, without waiting.
\<close>

theorem on_stop_always_tears_down:
  "raised (on_stop d s) = None
   \<and> interrupt_requested (stopped (on_stop d s))
   \<and> waited (on_stop d s) \<le> 20
   \<and> waited (on_stop d s) =
       (if inference_in_progress s
        then (case d of Some t \<Rightarrow> if t < 20 then t else 20 | None \<Rightarrow> 20) else 0)
   \<and> warnings (on_stop d s) =
       (if inference_in_progress s \<and> (case d of Some t \<Rightarrow> 20 \<le> t | None \<Rightarrow> True)
        then [''Inference did not complete within 20 seconds, proceeding anyway''] else [])
   \<and> frame_queue (stopped (on_stop d s)) = []
   \<and> background_tasks (stopped (on_stop d s)) = []
   \<and> background_task_started (stopped (on_stop d s)) = False
   \<and> length (tasks (stopped (on_stop d s))) = length (tasks s)
   \<and> filter (\<lambda>i. i < length (tasks s) \<and> snd (tasks (stopped (on_stop d s)) ! i) = Running)
        (background_tasks s) = []
   \<and> stopped (on_stop d' (stopped (on_stop d s))) = stopped (on_stop d s)
   \<and> raised (on_stop d' (stopped (on_stop d s))) = None
   \<and> stopped (on_stop d init_handlers) = init_handlers\<lparr>interrupt_requested := True\<rparr>
   \<and> waited (on_stop d init_handlers) = 0"
proof -
  have w: "waited (on_stop d s) \<le> 20"
    using wait_for_result(2) [of d 20] by (simp add: on_stop_state)
  have w': "waited (on_stop d s) =
       (if inference_in_progress s
        then (case d of Some t \<Rightarrow> if t < 20 then t else 20 | None \<Rightarrow> 20) else 0)"
    by (simp add: on_stop_state wait_for_def split: option.splits)
  have l: "warnings (on_stop d s) =
       (if inference_in_progress s \<and> (case d of Some t \<Rightarrow> 20 \<le> t | None \<Rightarrow> True)
        then [''Inference did not complete within 20 seconds, proceeding anyway''] else [])"
    by (auto simp: on_stop_state wait_for_def split: option.splits)
  have c: "filter (\<lambda>i. i < length (tasks s) \<and> snd (tasks (stopped (on_stop d s)) ! i) = Running)
        (background_tasks s) = []"
    using fold_cancel_cancels [of _ "background_tasks s" "tasks s"]
    by (auto simp: on_stop_state filter_empty_conv)
  have i: "stopped (on_stop d' (stopped (on_stop d s))) = stopped (on_stop d s)"
    by (simp add: on_stop_state)
  have n: "stopped (on_stop d init_handlers) = init_handlers\<lparr>interrupt_requested := True\<rparr>"
    "waited (on_stop d init_handlers) = 0"
    by (simp_all add: on_stop_state init_handlers_def)
  show ?thesis
    using w w' l c i n by (simp add: on_stop_state fold_cancel_length)
qed

section \<open>A parameter update during a job\<close>

lemma inference_begin_snapshot: "fst (inference_begin s) = cfg s"
  by (simp add: inference_begin_def Let_def)

lemma inference_run_without_enhancement:
  "\<not> enhance_prompt c \<Longrightarrow> fst (inference_run eng c (s\<lparr>cfg := c'\<rparr>)) = fst (inference_run eng c s)"
  by (simp add: inference_run_def interrupt_callback_def Let_def)

lemma inference_run_same_guidance:
  "enhance_guidance c' = enhance_guidance (cfg s) \<Longrightarrow>
   prompt_guidance_doc c' = prompt_guidance_doc (cfg s) \<Longrightarrow>
   fst (inference_run eng c (s\<lparr>cfg := c'\<rparr>)) = fst (inference_run eng c s)"
  by (simp add: inference_run_def enhance_prompt_text_def interrupt_callback_def Let_def
      cong: sum.case_cong)

text \<open>
  C2. The snapshot \<^verbatim>\<open>cfg = copy.deepcopy(self.cfg)\<close> is what \<^verbatim>\<open>self.pipe\<close> is called with,
  and a later update does not change it. The method \<^verbatim>\<open>enhance_prompt\<close>, though, reads
  \<^verbatim>\<open>self.cfg.enhance_guidance\<close> and \<^verbatim>\<open>self.cfg.prompt_guidance_doc\<close>, the live
  configuration. With enhancement off in the snapshot the result of the job does not
  depend on the live configuration (\<open>inference_run_without_enhancement\<close>); with
  enhancement on, an update of the enhancement guidance that lands after the snapshot and
  before the enhancement changes the prompt of the running job. Below: a job starts with
  the default configuration and enhancement on; its snapshot is that configuration; for a
  text encoder that answers with the guidance it was given and a pipeline that paints
  black for the prompt \<open>none\<close> and white otherwise, the job returns the black image
  when nothing happens to the configuration, and the white one when the update has
  replaced the guidance in between.
\<close>

theorem mid_job_update_reaches_enhanced_job:
  "fst (inference_begin (init_handlers\<lparr>cfg := default_config\<lparr>enhance_prompt := True\<rparr>\<rparr>))
     = default_config\<lparr>enhance_prompt := True\<rparr>
   \<and> fst (update_params [(''enhance_guidance'', PStr ''oil painting''), (''enhance_prompt'', PStr ''yes'')]
        (default_config\<lparr>enhance_prompt := True\<rparr>))
     = default_config\<lparr>enhance_prompt := True, enhance_guidance := PStr ''oil painting''\<rparr>
   \<and> fst (inference_run
        \<lparr>text_encoder = (\<lambda>g d q. Inr (case g of PStr t \<Rightarrow> t | _ \<Rightarrow> [])),
         pipe = (\<lambda>c i. Inr (if call_prompt c = PStr ''none''
                     then \<lparr>im_width = 1, im_height = 1, im_pixels = [[(0, 0, 0)]]\<rparr>
                     else \<lparr>im_width = 1, im_height = 1, im_pixels = [[(255, 255, 255)]]\<rparr>)),
         pipe_has_interrupt = False, entropy = 0\<rparr>
        (default_config\<lparr>enhance_prompt := True\<rparr>)
        (snd (inference_begin (init_handlers\<lparr>cfg := default_config\<lparr>enhance_prompt := True\<rparr>\<rparr>))))
     = Inr \<lparr>im_width = 1, im_height = 1, im_pixels = [[(0, 0, 0)]]\<rparr>
   \<and> fst (inference_run
        \<lparr>text_encoder = (\<lambda>g d q. Inr (case g of PStr t \<Rightarrow> t | _ \<Rightarrow> [])),
         pipe = (\<lambda>c i. Inr (if call_prompt c = PStr ''none''
                     then \<lparr>im_width = 1, im_height = 1, im_pixels = [[(0, 0, 0)]]\<rparr>
                     else \<lparr>im_width = 1, im_height = 1, im_pixels = [[(255, 255, 255)]]\<rparr>)),
         pipe_has_interrupt = False, entropy = 0\<rparr>
        (default_config\<lparr>enhance_prompt := True\<rparr>)
        ((snd (inference_begin (init_handlers\<lparr>cfg := default_config\<lparr>enhance_prompt := True\<rparr>\<rparr>)))
           \<lparr>cfg := default_config\<lparr>enhance_prompt := True, enhance_guidance := PStr ''oil painting''\<rparr>\<rparr>))
     = Inr \<lparr>im_width = 1, im_height = 1, im_pixels = [[(255, 255, 255)]]\<rparr>"
proof -
  have u: "fst (update_params [(''enhance_guidance'', PStr ''oil painting''), (''enhance_prompt'', PStr ''yes'')]
        (default_config\<lparr>enhance_prompt := True\<rparr>))
     = default_config\<lparr>enhance_prompt := True, enhance_guidance := PStr ''oil painting''\<rparr>"
    by code_simp
  show ?thesis
    using u
    by (simp add: inference_begin_def inference_run_def enhance_prompt_text_def Let_def
        interrupt_callback_def default_config_def init_handlers_def)
qed

end
